theory Spec2Isabelle
  imports Main
begin

unbundle bit_operations_syntax

section \<open>Data model of the Program runtime (tea.go, keyboard.go)\<close>

subsection \<open>Terminal modes\<close>

text \<open>
  Mode identifiers of package \<open>ansi\<close> that tea.go names, and every other mode as
  \<open>OtherMode\<close>.
\<close>

datatype Mode =
    AltScreenSaveCursorMode
  | TextCursorEnableMode
  | GraphemeClusteringMode
  | BracketedPasteMode
  | ButtonEventMouseMode
  | AnyEventMouseMode
  | SgrExtMouseMode
  | FocusEventMode
  | OtherMode nat

text \<open>
  Modelled from the spec: the type \<open>ansi.Modes\<close> and its methods \<open>Get\<close>, \<open>Set\<close>,
  \<open>Reset\<close>, \<open>IsSet\<close>, \<open>IsReset\<close> belong to an imported package whose source is not
  part of the repository. The spec describes the table as a mapping from mode identifier
  to the tri-state unknown, set, reset; a mode that was never stored reads as unknown
  (the zero value of a Go map lookup).
\<close>

datatype ModeSetting = ModeNotRecognized | ModeSet | ModeReset

type_synonym Modes = "Mode \<Rightarrow> ModeSetting"

definition IsSet :: "ModeSetting \<Rightarrow> bool" where
  "IsSet s = (s = ModeSet)"

definition IsReset :: "ModeSetting \<Rightarrow> bool" where
  "IsReset s = (s = ModeReset)"

definition Modes_Get :: "Modes \<Rightarrow> Mode \<Rightarrow> ModeSetting" where
  "Modes_Get ms m = ms m"

definition Modes_Set :: "Modes \<Rightarrow> Mode \<Rightarrow> Modes" where
  "Modes_Set ms m = ms(m := ModeSet)"

definition Modes_Reset :: "Modes \<Rightarrow> Mode \<Rightarrow> Modes" where
  "Modes_Reset ms m = ms(m := ModeReset)"

subsection \<open>Keyboard enhancements (keyboard.go)\<close>

text \<open>Go's \<open>int\<close> fields; only bitwise OR and comparisons act on them, so \<open>int\<close> is exact.\<close>

record KeyboardEnhancements =
  kittyFlags :: int
  modifyOtherKeys :: int

definition noEnhancements :: KeyboardEnhancements where
  "noEnhancements = \<lparr>kittyFlags = 0, modifyOtherKeys = 0\<rparr>"

text \<open>The kitty flag values, as the comment of the field \<open>kittyFlags\<close> lists them.\<close>

definition KittyDisambiguateEscapeCodes :: int where
  "KittyDisambiguateEscapeCodes = 1"

definition KittyReportEventTypes :: int where
  "KittyReportEventTypes = 2"

definition KittyReportAlternateKeys :: int where
  "KittyReportAlternateKeys = 4"

definition KittyReportAllKeysAsEscapeCodes :: int where
  "KittyReportAllKeysAsEscapeCodes = 8"

text \<open>The three values of type \<open>KeyboardEnhancementOption\<close> that the package defines.\<close>

datatype KeyboardEnhancementOption =
    WithKeyReleases
  | WithUniformKeyLayout
  | withKeyDisambiguation

fun applyOption :: "KeyboardEnhancementOption \<Rightarrow> KeyboardEnhancements \<Rightarrow> KeyboardEnhancements" where
  "applyOption WithKeyReleases k =
     k\<lparr>kittyFlags := kittyFlags k OR KittyReportEventTypes\<rparr>"
| "applyOption WithUniformKeyLayout k =
     k\<lparr>kittyFlags := kittyFlags k OR (KittyReportAlternateKeys OR KittyReportAllKeysAsEscapeCodes)\<rparr>"
| "applyOption withKeyDisambiguation k =
     (let k1 = k\<lparr>kittyFlags := kittyFlags k OR KittyDisambiguateEscapeCodes\<rparr>
      in if modifyOtherKeys k1 < 1 then k1\<lparr>modifyOtherKeys := 1\<rparr> else k1)"

subsection \<open>Messages and commands\<close>

text \<open>A command is opaque to the loop: it is only forwarded. \<open>None\<close> is the nil command.\<close>

datatype Cmd = Cmd nat

datatype Profile = TrueColor | ANSI256 | ANSI | Ascii | NoTTY

type_synonym Color = nat

text \<open>
  The message types the switch of \<open>eventLoop\<close> distinguishes, in its order, and every
  other message (key presses, \<open>ResumeMsg\<close>, application messages) as \<open>OtherMsg\<close>.
\<close>

datatype Msg =
    QuitMsg
  | InterruptMsg
  | SuspendMsg
  | CapabilityMsg string
  | modeReportMsg Mode ModeSetting
  | enableModeMsg Mode
  | disableModeMsg Mode
  | readClipboardMsg
  | setClipboardMsg string
  | readPrimaryClipboardMsg
  | setPrimaryClipboardMsg string
  | setBackgroundColorMsg "Color option"
  | setForegroundColorMsg "Color option"
  | setCursorColorMsg "Color option"
  | backgroundColorMsg
  | foregroundColorMsg
  | cursorColorMsg
  | KeyboardEnhancementsMsg KeyboardEnhancements
  | enableKeyboardEnhancementsMsg "KeyboardEnhancementOption list"
  | disableKeyboardEnhancementsMsg
  | execMsg nat
  | terminalVersion
  | requestCapabilityMsg string
  | BatchMsg "Cmd option list"
  | sequenceMsg "Cmd option list"
  | setWindowTitleMsg string
  | WindowSizeMsg int int
  | windowSizeMsg
  | requestCursorPosMsg
  | RawMsg string
  | printLineMessage string
  | repaintMsg
  | clearScreenMsg
  | ColorProfileMsg Profile
  | OtherMsg nat

definition RequestKeyboardEnhancements :: "KeyboardEnhancementOption list \<Rightarrow> Msg" where
  "RequestKeyboardEnhancements enhancements =
     enableKeyboardEnhancementsMsg (enhancements @ [withKeyDisambiguation])"

datatype error = ErrProgramKilled | ErrInterrupted | ErrOther string

subsection \<open>Observable effects\<close>

text \<open>The escape sequences handed to \<open>p.execute\<close>, kept symbolic.\<close>

datatype Seq =
    SetMode Mode
  | ResetMode Mode
  | SetGraphemeClusteringMode_RequestGraphemeClusteringMode
  | RequestSystemClipboard
  | SetSystemClipboard string
  | RequestPrimaryClipboard
  | SetPrimaryClipboard string
  | SetBackgroundColor Color
  | ResetBackgroundColor
  | SetForegroundColor Color
  | ResetForegroundColor
  | SetCursorColor Color
  | ResetCursorColor
  | RequestBackgroundColor
  | RequestForegroundColor
  | RequestCursorColor
  | ResetModifyOtherKeys
  | DisableKittyKeyboard
  | KeyModifierOptions int int
  | QueryModifyOtherKeys
  | PushKittyKeyboard int
  | RequestKittyKeyboard
  | RequestNameVersion
  | RequestTermcap string
  | SetWindowTitle string
  | RequestCursorPositionReport
  | Raw string

record Cursor =
  Color :: "Color option"

text \<open>The calls on the renderer capability.\<close>

datatype RendererCall =
    enterAltScreen
  | exitAltScreen
  | showCursor
  | hideCursor
  | resize int int
  | insertAbove string
  | repaint
  | clearScreen
  | setColorProfile Profile
  | render_view string "Cursor option"
  | flush
  | close

text \<open>The goroutines the loop starts with \<open>go\<close>.\<close>

datatype Task =
    GoSend Msg
  | GoKeyboardc
  | GoSendKeyboardEnhancementsMsg
  | GoSequence "Cmd option list"
  | GoCheckResize

datatype Effect =
    Execute Seq
  | Renderer RendererCall
  | Go Task
  | UpdateCall Msg
  | CmdsSend "Cmd option"
  | CallSuspend
  | CallExec nat
  | CtxCancel
  | HandlersShutdown
  | InputReaderCancel
  | WaitForReadLoop
  | InputReaderClose
  | RendererDoneSend
  | RestoreTerminalState
  | FinishedSend

subsection \<open>The program and the model\<close>

text \<open>
  The fields of \<open>Program\<close> that the modelled functions read or write. The channel
  \<open>finished\<close> is the number of values sent to it; \<open>trace\<close> records every effect in
  the order the code performs it. \<open>readerCancelled\<close> is what \<open>inputReader.Cancel()\<close>
  returns.
\<close>

record 'm Program =
  filter_hook :: "('m \<Rightarrow> Msg option \<Rightarrow> Msg option) option"
  profile :: Profile
  modes :: Modes
  requestedEnhancements :: KeyboardEnhancements
  activeEnhancements :: KeyboardEnhancements
  setBg :: "Color option"
  setFg :: "Color option"
  setCc :: "Color option"
  ignoreSignals :: nat
  ctxDone :: bool
  shutdownOnce :: bool
  once :: bool
  hasInputReader :: bool
  readerCancelled :: bool
  hasRenderer :: bool
  finished :: nat
  trace :: "Effect list"

text \<open>The methods of the \<open>Model\<close> interface; \<open>Cursor\<close> is \<open>None\<close> for a model without one.\<close>

record 'm Model =
  Update :: "'m \<Rightarrow> Msg \<Rightarrow> 'm \<times> Cmd option"
  View :: "'m \<Rightarrow> string"
  CursorOf :: "'m \<Rightarrow> Cursor option"

text \<open>The build constants \<open>runtime.GOOS\<close> and \<open>suspendSupported\<close>.\<close>

record Platform =
  GOOS :: string
  suspendSupported :: bool

section \<open>The event loop (tea.go)\<close>

subsection \<open>Writing to the terminal, the renderer and the command channel\<close>

definition emit :: "Effect \<Rightarrow> 'm Program \<Rightarrow> 'm Program" where
  "emit e p = p\<lparr>trace := trace p @ [e]\<rparr>"

definition execute :: "Seq \<Rightarrow> 'm Program \<Rightarrow> 'm Program" where
  "execute s p = emit (Execute s) p"

definition renderer_call :: "RendererCall \<Rightarrow> 'm Program \<Rightarrow> 'm Program" where
  "renderer_call c p = emit (Renderer c) p"

definition go :: "Task \<Rightarrow> 'm Program \<Rightarrow> 'm Program" where
  "go t p = emit (Go t) p"

definition cmds_send :: "Cmd option \<Rightarrow> 'm Program \<Rightarrow> 'm Program" where
  "cmds_send c p = emit (CmdsSend c) p"

definition render :: "'m Model \<Rightarrow> 'm \<Rightarrow> 'm Program \<Rightarrow> 'm Program" where
  "render M model p =
     (let cur = CursorOf M model;
          p1 = (case cur of None \<Rightarrow> p | Some c \<Rightarrow> p\<lparr>setCc := Color c\<rparr>)
      in renderer_call (render_view (View M model) cur) p1)"

subsection \<open>Mode messages (lines 523 to 559)\<close>

definition enableMode :: "Mode \<Rightarrow> 'm Program \<Rightarrow> 'm Program" where
  "enableMode m p =
     (if IsSet (Modes_Get (modes p) m) then p
      else
        let p1 = p\<lparr>modes := Modes_Set (modes p) m\<rparr>
        in (case m of
              AltScreenSaveCursorMode \<Rightarrow> renderer_call enterAltScreen p1
            | TextCursorEnableMode \<Rightarrow> renderer_call showCursor p1
            | GraphemeClusteringMode \<Rightarrow>
                execute SetGraphemeClusteringMode_RequestGraphemeClusteringMode p1
            | _ \<Rightarrow> execute (SetMode m) p1))"

definition disableMode :: "Mode \<Rightarrow> 'm Program \<Rightarrow> 'm Program" where
  "disableMode m p =
     (if IsReset (Modes_Get (modes p) m) then p
      else
        let p1 = p\<lparr>modes := Modes_Reset (modes p) m\<rparr>
        in (case m of
              AltScreenSaveCursorMode \<Rightarrow> renderer_call exitAltScreen p1
            | TextCursorEnableMode \<Rightarrow> renderer_call hideCursor p1
            | _ \<Rightarrow> execute (ResetMode m) p1))"

subsection \<open>Keyboard enhancement messages (lines 606 to 654, 1211 to 1220)\<close>

definition requestKeyboardEnhancements :: "'m Program \<Rightarrow> 'm Program" where
  "requestKeyboardEnhancements p =
     (let p1 = (if modifyOtherKeys (requestedEnhancements p) > 0
                then execute QueryModifyOtherKeys
                       (execute (KeyModifierOptions 4 (modifyOtherKeys (requestedEnhancements p))) p)
                else p)
      in if kittyFlags (requestedEnhancements p1) > 0
         then execute RequestKittyKeyboard
                (execute (PushKittyKeyboard (kittyFlags (requestedEnhancements p1))) p1)
         else p1)"

definition enableKeyboardEnhancements ::
  "Platform \<Rightarrow> KeyboardEnhancementOption list \<Rightarrow> 'm Program \<Rightarrow> 'm Program" where
  "enableKeyboardEnhancements pf msg p =
     (if GOOS pf = ''windows'' then p
      else
        let ke = foldl (\<lambda>k e. applyOption e k) noEnhancements msg;
            req = requestedEnhancements p;
            req1 = req\<lparr>kittyFlags := kittyFlags req OR kittyFlags ke\<rparr>;
            req2 = (if modifyOtherKeys ke > modifyOtherKeys req1
                    then req1\<lparr>modifyOtherKeys := modifyOtherKeys ke\<rparr> else req1);
            p1 = requestKeyboardEnhancements (p\<lparr>requestedEnhancements := req2\<rparr>)
        in go GoSendKeyboardEnhancementsMsg p1)"

definition disableKeyboardEnhancements :: "Platform \<Rightarrow> 'm Program \<Rightarrow> 'm Program" where
  "disableKeyboardEnhancements pf p =
     (if GOOS pf = ''windows'' then p
      else
        let p1 = (if modifyOtherKeys (activeEnhancements p) > 0
                  then (execute ResetModifyOtherKeys p)
                         \<lparr>activeEnhancements := (activeEnhancements p)\<lparr>modifyOtherKeys := 0\<rparr>,
                          requestedEnhancements := (requestedEnhancements p)\<lparr>modifyOtherKeys := 0\<rparr>\<rparr>
                  else p)
        in if kittyFlags (activeEnhancements p1) > 0
           then (execute DisableKittyKeyboard p1)
                  \<lparr>activeEnhancements := (activeEnhancements p1)\<lparr>kittyFlags := 0\<rparr>,
                   requestedEnhancements := (requestedEnhancements p1)\<lparr>kittyFlags := 0\<rparr>\<rparr>
           else p1)"

subsection \<open>The switch on the message type (lines 495 to 730)\<close>

text \<open>
  A case of the switch either returns from \<open>eventLoop\<close>, or executes \<open>continue\<close>, or
  falls out of the switch to the call of \<open>Update\<close>.
\<close>

datatype 'p switch_result = Return "error option" | Continue 'p | Proceed 'p

fun handleMsg :: "Platform \<Rightarrow> Msg \<Rightarrow> 'm Program \<Rightarrow> 'm Program switch_result" where
  "handleMsg pf QuitMsg p = Return None"
| "handleMsg pf InterruptMsg p = Return (Some ErrInterrupted)"
| "handleMsg pf SuspendMsg p =
     Proceed (if suspendSupported pf then emit CallSuspend p else p)"
| "handleMsg pf (CapabilityMsg s) p =
     Proceed (if (s = ''RGB'' \<or> s = ''Tc'') \<and> profile p \<noteq> TrueColor
              then go (GoSend (ColorProfileMsg TrueColor)) (p\<lparr>profile := TrueColor\<rparr>)
              else p)"
| "handleMsg pf (modeReportMsg m v) p =
     Proceed (case m of
                GraphemeClusteringMode \<Rightarrow> p\<lparr>modes := (modes p)(GraphemeClusteringMode := v)\<rparr>
              | _ \<Rightarrow> p)"
| "handleMsg pf (enableModeMsg m) p = Proceed (enableMode m p)"
| "handleMsg pf (disableModeMsg m) p = Proceed (disableMode m p)"
| "handleMsg pf readClipboardMsg p = Proceed (execute RequestSystemClipboard p)"
| "handleMsg pf (setClipboardMsg s) p = Proceed (execute (SetSystemClipboard s) p)"
| "handleMsg pf readPrimaryClipboardMsg p = Proceed (execute RequestPrimaryClipboard p)"
| "handleMsg pf (setPrimaryClipboardMsg s) p = Proceed (execute (SetPrimaryClipboard s) p)"
| "handleMsg pf (setBackgroundColorMsg c) p =
     Proceed ((case c of Some col \<Rightarrow> execute (SetBackgroundColor col) p
                       | None \<Rightarrow> execute ResetBackgroundColor p)\<lparr>setBg := c\<rparr>)"
| "handleMsg pf (setForegroundColorMsg c) p =
     Proceed ((case c of Some col \<Rightarrow> execute (SetForegroundColor col) p
                       | None \<Rightarrow> execute ResetForegroundColor p)\<lparr>setFg := c\<rparr>)"
| "handleMsg pf (setCursorColorMsg c) p =
     Proceed ((case c of Some col \<Rightarrow> execute (SetCursorColor col) p
                       | None \<Rightarrow> execute ResetCursorColor p)\<lparr>setCc := c\<rparr>)"
| "handleMsg pf backgroundColorMsg p = Proceed (execute RequestBackgroundColor p)"
| "handleMsg pf foregroundColorMsg p = Proceed (execute RequestForegroundColor p)"
| "handleMsg pf cursorColorMsg p = Proceed (execute RequestCursorColor p)"
| "handleMsg pf (KeyboardEnhancementsMsg k) p =
     Proceed (go GoKeyboardc
                (p\<lparr>activeEnhancements :=
                     (activeEnhancements p)\<lparr>kittyFlags := kittyFlags k,
                                             modifyOtherKeys := modifyOtherKeys k\<rparr>\<rparr>))"
| "handleMsg pf (enableKeyboardEnhancementsMsg opts) p =
     Proceed (enableKeyboardEnhancements pf opts p)"
| "handleMsg pf disableKeyboardEnhancementsMsg p = Proceed (disableKeyboardEnhancements pf p)"
| "handleMsg pf (execMsg c) p = Proceed (emit (CallExec c) p)"
| "handleMsg pf terminalVersion p = Proceed (execute RequestNameVersion p)"
| "handleMsg pf (requestCapabilityMsg s) p = Proceed (execute (RequestTermcap s) p)"
| "handleMsg pf (BatchMsg cs) p = Continue (foldl (\<lambda>q c. cmds_send c q) p cs)"
| "handleMsg pf (sequenceMsg cs) p = Proceed (go (GoSequence cs) p)"
| "handleMsg pf (setWindowTitleMsg s) p = Proceed (execute (SetWindowTitle s) p)"
| "handleMsg pf (WindowSizeMsg w h) p = Proceed (renderer_call (resize w h) p)"
| "handleMsg pf windowSizeMsg p = Proceed (go GoCheckResize p)"
| "handleMsg pf requestCursorPosMsg p = Proceed (execute RequestCursorPositionReport p)"
| "handleMsg pf (RawMsg s) p = Proceed (execute (Raw s) p)"
| "handleMsg pf (printLineMessage s) p = Proceed (renderer_call (insertAbove s) p)"
| "handleMsg pf repaintMsg p = Proceed (renderer_call repaint p)"
| "handleMsg pf clearScreenMsg p = Proceed (renderer_call clearScreen p)"
| "handleMsg pf (ColorProfileMsg pr) p = Proceed (renderer_call (setColorProfile pr) p)"
| "handleMsg pf (OtherMsg x) p = Proceed p"

subsection \<open>The loop (lines 476 to 739)\<close>

text \<open>
  One element of the list is the case the \<open>select\<close> of one iteration takes: the context
  is done, an error arrives on \<open>p.errs\<close>, or a message (possibly nil) arrives on
  \<open>p.msgs\<close>. When the list is used up the loop waits in its \<open>select\<close>.
\<close>

datatype event = CtxDone | ErrsRecv "error option" | MsgsRecv "Msg option"

datatype 'm outcome = Returned 'm "error option" | Waiting 'm

definition applyFilter :: "'m Program \<Rightarrow> 'm \<Rightarrow> Msg option \<Rightarrow> Msg option" where
  "applyFilter p model msg =
     (case filter_hook p of None \<Rightarrow> msg | Some f \<Rightarrow> f model msg)"

definition updateAndRender ::
  "'m Model \<Rightarrow> Msg \<Rightarrow> 'm \<Rightarrow> 'm Program \<Rightarrow> 'm Program \<times> 'm" where
  "updateAndRender M msg model p =
     (let r = Update M model msg;
          p1 = emit (UpdateCall msg) p;
          p2 = cmds_send (snd r) p1
      in (render M (fst r) p2, fst r))"

fun eventLoop ::
  "Platform \<Rightarrow> 'm Model \<Rightarrow> 'm Program \<Rightarrow> 'm \<Rightarrow> event list \<Rightarrow> 'm Program \<times> 'm outcome" where
  "eventLoop pf M p model [] = (p, Waiting model)"
| "eventLoop pf M p model (CtxDone # es) = (p, Returned model None)"
| "eventLoop pf M p model (ErrsRecv err # es) = (p, Returned model err)"
| "eventLoop pf M p model (MsgsRecv msg0 # es) =
     (case applyFilter p model msg0 of
        None \<Rightarrow> eventLoop pf M p model es
      | Some msg \<Rightarrow>
          (case handleMsg pf msg p of
             Return err \<Rightarrow> (p, Returned model err)
           | Continue p1 \<Rightarrow> eventLoop pf M p1 model es
           | Proceed p1 \<Rightarrow>
               eventLoop pf M (fst (updateAndRender M msg model p1))
                 (snd (updateAndRender M msg model p1)) es))"

section \<open>Shutdown and the end of Run (tea.go)\<close>

subsection \<open>shutdown, Kill and recoverFromPanic (lines 980 to 1033, 1175 to 1187)\<close>

definition cancel :: "'m Program \<Rightarrow> 'm Program" where
  "cancel p = emit CtxCancel (p\<lparr>ctxDone := True\<rparr>)"

definition stopRenderer :: "bool \<Rightarrow> 'm Program \<Rightarrow> 'm Program" where
  "stopRenderer kill p =
     (let p1 = (if once p then p else emit RendererDoneSend (p\<lparr>once := True\<rparr>));
          p2 = (if \<not> kill then renderer_call flush p1 else p1)
      in renderer_call close p2)"

text \<open>
  The function that \<open>shutdownOnce.Do\<close> is given, statement by statement: cancel the
  context, wait for the handlers, cancel and close the input reader, stop the renderer,
  restore the terminal, signal \<open>finished\<close>.
\<close>

definition closeInput :: "bool \<Rightarrow> 'm Program \<Rightarrow> 'm Program" where
  "closeInput kill p =
     (if hasInputReader p
      then
        let q = emit InputReaderCancel p;
            q1 = (if readerCancelled q \<and> \<not> kill then emit WaitForReadLoop q else q)
        in emit InputReaderClose q1
      else p)"

definition stopRendererIfSet :: "bool \<Rightarrow> 'm Program \<Rightarrow> 'm Program" where
  "stopRendererIfSet kill p = (if hasRenderer p then stopRenderer kill p else p)"

definition signalFinished :: "bool \<Rightarrow> 'm Program \<Rightarrow> 'm Program" where
  "signalFinished kill p =
     (if \<not> kill then emit FinishedSend (p\<lparr>finished := finished p + 1\<rparr>) else p)"

definition shutdown_steps :: "bool \<Rightarrow> ('m Program \<Rightarrow> 'm Program) list" where
  "shutdown_steps kill =
     [cancel, emit HandlersShutdown, closeInput kill, stopRendererIfSet kill,
      emit RestoreTerminalState, signalFinished kill]"

definition shutdown_body :: "bool \<Rightarrow> 'm Program \<Rightarrow> 'm Program" where
  "shutdown_body kill p = foldl (\<lambda>q f. f q) p (shutdown_steps kill)"

text \<open>
  A call of \<open>shutdown\<close> by itself. \<open>sync.Once\<close> is the flag \<open>shutdownOnce\<close>: the first
  call of \<open>Do\<close> runs the function and sets the flag, every later call returns at once.
\<close>

definition shutdown :: "bool \<Rightarrow> 'm Program \<Rightarrow> 'm Program" where
  "shutdown kill p =
     (if shutdownOnce p then p else (shutdown_body kill p)\<lparr>shutdownOnce := True\<rparr>)"

definition Kill :: "'m Program \<Rightarrow> 'm Program" where
  "Kill p = shutdown True p"

text \<open>The argument says whether \<open>recover()\<close> returned a value, that is, whether there was a panic.\<close>

definition recoverFromPanic :: "bool \<Rightarrow> 'm Program \<Rightarrow> 'm Program" where
  "recoverFromPanic r p = (if r then shutdown True p else p)"

subsection \<open>Run, from the return of eventLoop (lines 936 to 949)\<close>

definition Run_after_loop ::
  "'m Model \<Rightarrow> 'm Program \<Rightarrow> 'm \<Rightarrow> error option \<Rightarrow> 'm Program \<times> 'm \<times> error option" where
  "Run_after_loop M p model err =
     (let killed = (ctxDone p \<or> err \<noteq> None);
          err1 = (if killed \<and> err = None then Some ErrProgramKilled else err);
          p1 = (if err1 = None then render M model p else p)
      in (shutdown killed p1, model, err1))"

text \<open>\<open>None\<close>: the loop has not returned on these events, \<open>Run\<close> is still inside it.\<close>

definition Run_eventLoop ::
  "Platform \<Rightarrow> 'm Model \<Rightarrow> 'm Program \<Rightarrow> 'm \<Rightarrow> event list \<Rightarrow>
     ('m Program \<times> 'm \<times> error option) option" where
  "Run_eventLoop pf M p model es =
     (case eventLoop pf M p model es of
        (p1, Returned model1 err) \<Rightarrow> Some (Run_after_loop M p1 model1 err)
      | (p1, Waiting model1) \<Rightarrow> None)"

subsection \<open>Calls of shutdown from several goroutines\<close>

text \<open>
  Every termination trigger ends in a call of \<open>shutdown\<close>: \<open>Kill\<close> and a recovered panic
  call \<open>shutdown(true)\<close>; a Quit message, an Interrupt message and a cancelled context
  make \<open>eventLoop\<close> return, and \<open>Run\<close> calls \<open>shutdown(killed)\<close>. The calls can come
  from different goroutines at the same time. \<open>sync.Once\<close> lets the first call that
  reaches \<open>Do\<close> run the function; a call that arrives while the function runs waits, and
  returns when the flag is set; a call that arrives later returns at once.

  A configuration holds the program, the calls that have not passed \<open>Do\<close> yet (each with
  its argument \<open>kill\<close>), the call that runs the function (its \<open>kill\<close> and the number of
  statements it has executed), and the number of calls that have returned.
\<close>

record 'm config =
  prog :: "'m Program"
  pending :: "bool list"
  running :: "(bool \<times> nat) option"
  returned :: nat

text \<open>
  The scheduler lets one goroutine move: the caller at a position of \<open>pending\<close>, or the
  goroutine that runs the function, which executes its next statement. A goroutine that
  cannot move (a caller while the function runs) leaves the configuration as it is.
\<close>

datatype choice = Caller nat | Executor

definition remove_nth :: "nat \<Rightarrow> 'a list \<Rightarrow> 'a list" where
  "remove_nth i xs = take i xs @ drop (Suc i) xs"

definition sched_step :: "choice \<Rightarrow> 'm config \<Rightarrow> 'm config" where
  "sched_step ch c =
     (case ch of
        Caller i \<Rightarrow>
          if i < length (pending c)
          then
            if shutdownOnce (prog c)
            then c\<lparr>pending := remove_nth i (pending c), returned := Suc (returned c)\<rparr>
            else if running c = None
            then c\<lparr>pending := remove_nth i (pending c), running := Some (pending c ! i, 0)\<rparr>
            else c
          else c
      | Executor \<Rightarrow>
          (case running c of
             None \<Rightarrow> c
           | Some (kill, i) \<Rightarrow>
               if i < length (shutdown_steps kill :: ('m Program \<Rightarrow> 'm Program) list)
               then c\<lparr>prog := (shutdown_steps kill ! i) (prog c), running := Some (kill, Suc i)\<rparr>
               else c\<lparr>prog := (prog c)\<lparr>shutdownOnce := True\<rparr>, running := None,
                      returned := Suc (returned c)\<rparr>))"

definition exec :: "choice list \<Rightarrow> 'm config \<Rightarrow> 'm config" where
  "exec sched c = foldl (\<lambda>c ch. sched_step ch c) c sched"

definition start :: "'m Program \<Rightarrow> bool list \<Rightarrow> 'm config" where
  "start p kills = \<lparr>prog = p, pending = kills, running = None, returned = 0\<rparr>"

text \<open>All calls have returned.\<close>

definition final :: "'m config \<Rightarrow> bool" where
  "final c = (pending c = [] \<and> running c = None)"

text \<open>The number of moves that are left at most.\<close>

definition work_left :: "'m config \<Rightarrow> nat" where
  "work_left c =
     8 * length (pending c) +
     (case running c of None \<Rightarrow> 0 | Some (kill, i) \<Rightarrow> 7 - i)"

section \<open>Send, the signal handler and the keyboard timeout (tea.go)\<close>

subsection \<open>Send (lines 959 to 964)\<close>

text \<open>
  A \<open>select\<close> without default: the cases that can proceed now, each with what it does;
  an empty list means that the \<open>select\<close> blocks.
\<close>

definition select_ready :: "(bool \<times> 'a) list \<Rightarrow> 'a list" where
  "select_ready cases = map snd (filter fst cases)"

datatype send_result = NoOp | Delivered Msg

text \<open>
  \<open>done\<close>: the context is cancelled; \<open>receiving\<close>: the loop is ready to receive from
  \<open>p.msgs\<close>.
\<close>

definition Send_select :: "Msg \<Rightarrow> bool \<Rightarrow> bool \<Rightarrow> send_result list" where
  "Send_select msg done receiving = select_ready [(done, NoOp), (receiving, Delivered msg)]"

text \<open>
  The call over time: one pair (\<open>done\<close>, \<open>receiving\<close>) for each moment at which the
  blocked \<open>select\<close> is looked at again. The result is the number of moments it stayed
  blocked and the ways it can return then; \<open>None\<close> if it is blocked through all of them.
\<close>

fun Send :: "Msg \<Rightarrow> (bool \<times> bool) list \<Rightarrow> (nat \<times> send_result list) option" where
  "Send msg [] = None"
| "Send msg ((done, receiving) # rest) =
     (if Send_select msg done receiving \<noteq> [] then Some (0, Send_select msg done receiving)
      else map_option (\<lambda>(n, r). (Suc n, r)) (Send msg rest))"

subsection \<open>handleSignals (lines 380 to 419) and ReleaseTerminal (lines 1037 to 1050)\<close>

datatype Signal = SIGINT | SIGTERM

text \<open>
  One element is the case the \<open>select\<close> of the goroutine takes: the context is done, or a
  signal arrives, together with the value that \<open>atomic.LoadUint32(&p.ignoreSignals)\<close>
  reads then.
\<close>

datatype sig_event = SigCtxDone | SigRecv Signal nat

text \<open>The messages sent to \<open>p.msgs\<close>, and whether the goroutine has returned.\<close>

fun handleSignals :: "sig_event list \<Rightarrow> Msg list \<times> bool" where
  "handleSignals [] = ([], False)"
| "handleSignals (SigCtxDone # es) = ([], True)"
| "handleSignals (SigRecv s ignore # es) =
     (if ignore = 0
      then (case s of SIGINT \<Rightarrow> ([InterruptMsg], True) | _ \<Rightarrow> ([QuitMsg], True))
      else handleSignals es)"

definition ReleaseTerminal :: "'m Program \<Rightarrow> 'm Program" where
  "ReleaseTerminal p =
     (let p1 = p\<lparr>ignoreSignals := 1\<rparr>;
          p2 = (if hasInputReader p1 then emit InputReaderCancel p1 else p1);
          p3 = emit WaitForReadLoop p2;
          p4 = (if hasRenderer p3 then stopRenderer False p3 else p3)
      in emit RestoreTerminalState p4)"

subsection \<open>sendKeyboardEnhancementsMsg (lines 1192 to 1207) and the channel keyboardc\<close>

datatype select_case = AfterTimeout | FromKeyboardc

text \<open>
  The message that the goroutine passes to \<open>Send\<close>, by the case that its \<open>select\<close>
  takes; on Windows it sends the empty report without a \<open>select\<close>.
\<close>

definition sendKeyboardEnhancementsMsg :: "Platform \<Rightarrow> select_case \<Rightarrow> Msg option" where
  "sendKeyboardEnhancementsMsg pf c =
     (if GOOS pf = ''windows'' then Some (KeyboardEnhancementsMsg noEnhancements)
      else (case c of
              AfterTimeout \<Rightarrow> Some (KeyboardEnhancementsMsg noEnhancements)
            | FromKeyboardc \<Rightarrow> None))"

text \<open>
  The loop together with the goroutines it has started. \<open>inSelect\<close> counts the goroutines
  that wait in the \<open>select\<close> of \<open>sendKeyboardEnhancementsMsg\<close>, \<open>inKeyboardcSend\<close> those
  that are blocked in \<open>p.keyboardc <- struct{}{}\<close> (the channel has no buffer: a send
  waits for a receive), and \<open>inSend\<close> holds the messages that goroutines have passed to
  \<open>Send\<close> and the loop has not received yet.
\<close>

record 'm runtime =
  loopProgram :: "'m Program"
  loopModel :: 'm
  loopReturned :: bool
  inSelect :: nat
  inKeyboardcSend :: nat
  inSend :: "Msg list"

definition handed :: "Msg option \<Rightarrow> 'm runtime \<Rightarrow> 'm runtime" where
  "handed m s = s\<lparr>inSend := inSend s @ (case m of None \<Rightarrow> [] | Some x \<Rightarrow> [x])\<rparr>"

text \<open>
  A goroutine that the loop has started runs up to its channel operation. The \<open>select\<close>
  of \<open>sendKeyboardEnhancementsMsg\<close> takes the case of \<open>keyboardc\<close> at once when a sender
  is blocked there (the timer has only just been set), and waits otherwise. The send on
  \<open>keyboardc\<close> is taken by a waiting \<open>select\<close> if there is one, and blocks otherwise. The
  goroutines of a sequence and of \<open>checkResize\<close> run commands and read the terminal
  size, which are outside the model.
\<close>

fun started :: "Platform \<Rightarrow> 'm runtime \<Rightarrow> Task \<Rightarrow> 'm runtime" where
  "started pf s GoSendKeyboardEnhancementsMsg =
     (if GOOS pf = ''windows'' then handed (sendKeyboardEnhancementsMsg pf AfterTimeout) s
      else if 0 < inKeyboardcSend s
      then handed (sendKeyboardEnhancementsMsg pf FromKeyboardc)
             (s\<lparr>inKeyboardcSend := inKeyboardcSend s - 1\<rparr>)
      else s\<lparr>inSelect := Suc (inSelect s)\<rparr>)"
| "started pf s GoKeyboardc =
     (if 0 < inSelect s
      then handed (sendKeyboardEnhancementsMsg pf FromKeyboardc) (s\<lparr>inSelect := inSelect s - 1\<rparr>)
      else s\<lparr>inKeyboardcSend := Suc (inKeyboardcSend s)\<rparr>)"
| "started pf s (GoSend msg) = handed (Some msg) s"
| "started pf s (GoSequence cs) = s"
| "started pf s GoCheckResize = s"

text \<open>The timer of one waiting \<open>select\<close> fires.\<close>

definition timer_fires :: "Platform \<Rightarrow> 'm runtime \<Rightarrow> 'm runtime" where
  "timer_fires pf s =
     (if 0 < inSelect s
      then handed (sendKeyboardEnhancementsMsg pf AfterTimeout) (s\<lparr>inSelect := inSelect s - 1\<rparr>)
      else s)"

definition tasks_of :: "Effect list \<Rightarrow> Task list" where
  "tasks_of es = concat (map (\<lambda>e. case e of Go t \<Rightarrow> [t] | _ \<Rightarrow> []) es)"

text \<open>The loop receives a message and runs one iteration; the goroutines it starts follow.\<close>

definition loop_receives :: "Platform \<Rightarrow> 'm Model \<Rightarrow> Msg \<Rightarrow> 'm runtime \<Rightarrow> 'm runtime" where
  "loop_receives pf M msg s =
     (if loopReturned s then s
      else
        (case eventLoop pf M (loopProgram s) (loopModel s) [MsgsRecv (Some msg)] of
           (p1, Returned model1 err) \<Rightarrow>
             s\<lparr>loopProgram := p1, loopModel := model1, loopReturned := True\<rparr>
         | (p1, Waiting model1) \<Rightarrow>
             foldl (started pf) (s\<lparr>loopProgram := p1, loopModel := model1\<rparr>)
               (tasks_of (drop (length (trace (loopProgram s))) (trace p1)))))"

text \<open>
  What happens next: a message arrives from outside (the application, the input reader),
  the loop receives the oldest message that a goroutine has passed to \<open>Send\<close>, or a timer
  fires.
\<close>

datatype sys_event = Arrives Msg | Delivers | Timeout

fun sys_step :: "Platform \<Rightarrow> 'm Model \<Rightarrow> 'm runtime \<Rightarrow> sys_event \<Rightarrow> 'm runtime" where
  "sys_step pf M s (Arrives msg) = loop_receives pf M msg s"
| "sys_step pf M s Delivers =
     (case inSend s of
        [] \<Rightarrow> s
      | msg # rest \<Rightarrow> loop_receives pf M msg (s\<lparr>inSend := rest\<rparr>))"
| "sys_step pf M s Timeout = timer_fires pf s"

definition sys_run :: "Platform \<Rightarrow> 'm Model \<Rightarrow> 'm runtime \<Rightarrow> sys_event list \<Rightarrow> 'm runtime" where
  "sys_run pf M s evs = foldl (sys_step pf M) s evs"

definition boot :: "'m Program \<Rightarrow> 'm \<Rightarrow> 'm runtime" where
  "boot p model =
     \<lparr>loopProgram = p, loopModel = model, loopReturned = False, inSelect = 0,
      inKeyboardcSend = 0, inSend = []\<rparr>"

section \<open>Example values\<close>

definition linux :: Platform where
  "linux = \<lparr>GOOS = ''linux'', suspendSupported = True\<rparr>"

text \<open>A model that counts its updates and returns no command.\<close>

definition counter :: "nat Model" where
  "counter =
     \<lparr>Update = (\<lambda>n msg. (Suc n, None)), View = (\<lambda>n. replicate n CHR ''x''),
      CursorOf = (\<lambda>n. None)\<rparr>"

text \<open>
  The program as \<open>NewProgram\<close> leaves it when only a filter is given: an empty mode
  table, no enhancements, nothing cancelled. The input reader and the renderer are
  those that \<open>Run\<close> sets up before the loop.
\<close>

definition newProgram :: "('m \<Rightarrow> Msg option \<Rightarrow> Msg option) option \<Rightarrow> 'm Program" where
  "newProgram f =
     \<lparr>filter_hook = f, profile = NoTTY, modes = (\<lambda>m. ModeNotRecognized),
      requestedEnhancements = noEnhancements, activeEnhancements = noEnhancements,
      setBg = None, setFg = None, setCc = None, ignoreSignals = 0, ctxDone = False,
      shutdownOnce = False, once = False, hasInputReader = True, readerCancelled = True,
      hasRenderer = True, finished = 0, trace = []\<rparr>"

text \<open>A filter that drops every Quit message and passes everything else on.\<close>

definition noQuit :: "nat \<Rightarrow> Msg option \<Rightarrow> Msg option" where
  "noQuit model msg = (if msg = Some QuitMsg then None else msg)"

section \<open>Notions used in the statements\<close>

text \<open>The loop receives these messages one after the other on \<open>p.msgs\<close>.\<close>

definition received :: "Msg list \<Rightarrow> event list" where
  "received msgs = map (\<lambda>msg. MsgsRecv (Some msg)) msgs"

text \<open>The filter of the program, if there is one, hands each of these messages on as it is.\<close>

definition passes :: "'m Program \<Rightarrow> Msg list \<Rightarrow> bool" where
  "passes p msgs = (\<forall>model. \<forall>msg \<in> set msgs. applyFilter p model (Some msg) = Some msg)"

text \<open>
  The net enables of the spec's testable property: the number of enable-mode messages
  minus the number of disable-mode messages.
\<close>

definition net_enables :: "Msg list \<Rightarrow> int" where
  "net_enables msgs =
     int (length (filter (\<lambda>x. case x of enableModeMsg m \<Rightarrow> True | _ \<Rightarrow> False) msgs)) -
     int (length (filter (\<lambda>x. case x of disableModeMsg m \<Rightarrow> True | _ \<Rightarrow> False) msgs))"

text \<open>
  The enhancements one request asks for: the value \<open>ke\<close> that the loop builds from the
  options of the message.
\<close>

definition requestedBy :: "KeyboardEnhancementOption list \<Rightarrow> KeyboardEnhancements" where
  "requestedBy opts = foldl (\<lambda>k e. applyOption e k) noEnhancements opts"

text \<open>Bitwise OR of the bitmasks, maximum of the levels.\<close>

definition merged :: "KeyboardEnhancements \<Rightarrow> KeyboardEnhancements \<Rightarrow> KeyboardEnhancements" where
  "merged req ke =
     \<lparr>kittyFlags = kittyFlags req OR kittyFlags ke,
      modifyOtherKeys = max (modifyOtherKeys req) (modifyOtherKeys ke)\<rparr>"

text \<open>The negotiation sequences that \<open>requestKeyboardEnhancements\<close> writes for a requested set.\<close>

definition negotiation :: "KeyboardEnhancements \<Rightarrow> Effect list" where
  "negotiation r =
     (if modifyOtherKeys r > 0
      then [Execute (KeyModifierOptions 4 (modifyOtherKeys r)), Execute QueryModifyOtherKeys]
      else []) @
     (if kittyFlags r > 0
      then [Execute (PushKittyKeyboard (kittyFlags r)), Execute RequestKittyKeyboard]
      else [])"

text \<open>What one execution of the function given to \<open>shutdownOnce.Do\<close> adds to the trace.\<close>

definition shutdown_trace :: "bool \<Rightarrow> 'm Program \<Rightarrow> Effect list" where
  "shutdown_trace kill p =
     [CtxCancel, HandlersShutdown] @
     (if hasInputReader p
      then [InputReaderCancel] @
           (if readerCancelled p \<and> \<not> kill then [WaitForReadLoop] else []) @
           [InputReaderClose]
      else []) @
     (if hasRenderer p
      then (if once p then [] else [RendererDoneSend]) @
           (if \<not> kill then [Renderer flush] else []) @
           [Renderer close]
      else []) @
     [RestoreTerminalState] @
     (if \<not> kill then [FinishedSend] else [])"

text \<open>
  Started from program \<open>p0\<close> with the calls \<open>kills\<close>, a configuration is in one of three
  phases: no call has passed \<open>Do\<close>; one call runs the function and has executed a prefix
  of its statements; the function has been executed once, in full, and the flag is set.
\<close>

definition phase :: "'m Program \<Rightarrow> bool list \<Rightarrow> 'm config \<Rightarrow> bool" where
  "phase p0 kills c =
     (length (pending c) + returned c + (case running c of None \<Rightarrow> 0 | Some r \<Rightarrow> 1) = length kills \<and>
      set (pending c) \<subseteq> set kills \<and>
      ((running c = None \<and> prog c = p0 \<and> returned c = 0) \<or>
       (\<exists>kill i. running c = Some (kill, i) \<and> kill \<in> set kills \<and> i \<le> 6 \<and>
                 \<not> shutdownOnce (prog c) \<and>
                 prog c = foldl (\<lambda>q f. f q) p0 (take i (shutdown_steps kill))) \<or>
       (\<exists>kill. running c = None \<and> kill \<in> set kills \<and> 0 < returned c \<and>
               prog c = (shutdown_body kill p0)\<lparr>shutdownOnce := True\<rparr>)))"

section \<open>Properties of the event loop\<close>

subsection \<open>Runs and single iterations\<close>

lemma eventLoop_append:
  "eventLoop pf M p model pre = (p1, Waiting m1) \<Longrightarrow>
   eventLoop pf M p model (pre @ es) = eventLoop pf M p1 m1 es"
proof (induction pf M p model pre rule: eventLoop.induct)
  case (4 pf M p model msg0 es')
  then show ?case
    by (simp split: option.splits switch_result.splits)
qed simp_all

lemma handleMsg_Proceed:
  assumes "msg \<noteq> QuitMsg" and "msg \<noteq> InterruptMsg" and "\<forall>cs. msg \<noteq> BatchMsg cs"
  shows "\<exists>p2. handleMsg pf msg p = Proceed p2"
  using assms by (cases msg) simp_all

lemma trace_updateAndRender:
  "trace (fst (updateAndRender M msg model p)) =
     trace p @ [UpdateCall msg, CmdsSend (snd (Update M model msg)),
                Renderer (render_view (View M (fst (Update M model msg)))
                                      (CursorOf M (fst (Update M model msg))))]"
  by (simp add: updateAndRender_def render_def renderer_call_def cmds_send_def emit_def Let_def
           split: option.split)

lemma snd_updateAndRender:
  "snd (updateAndRender M msg model p) = fst (Update M model msg)"
  by (simp add: updateAndRender_def Let_def)

lemma trace_forward: "trace (foldl (\<lambda>q c. cmds_send c q) p cs) = trace p @ map CmdsSend cs"
  by (induction cs arbitrary: p) (simp_all add: cmds_send_def emit_def)

lemma modes_updateAndRender [simp]: "modes (fst (updateAndRender M msg model p)) = modes p"
  by (simp add: updateAndRender_def render_def renderer_call_def cmds_send_def emit_def Let_def
           split: option.split)

lemma filter_hook_updateAndRender [simp]:
  "filter_hook (fst (updateAndRender M msg model p)) = filter_hook p"
  by (simp add: updateAndRender_def render_def renderer_call_def cmds_send_def emit_def Let_def
           split: option.split)

lemma requested_updateAndRender [simp]:
  "requestedEnhancements (fst (updateAndRender M msg model p)) = requestedEnhancements p"
  by (simp add: updateAndRender_def render_def renderer_call_def cmds_send_def emit_def Let_def
           split: option.split)

lemma passes_filter_hook: "filter_hook q = filter_hook p \<Longrightarrow> passes q msgs = passes p msgs"
  by (simp add: passes_def applyFilter_def)

lemma passes_None: "filter_hook p = None \<Longrightarrow> passes p msgs"
  by (simp add: passes_def applyFilter_def)

lemma filter_hook_newProgram [simp]: "filter_hook (newProgram f) = f"
  by (simp add: newProgram_def)

subsection \<open>Dropped messages\<close>

text \<open>
  Claim C10. The loop is waiting in its select with program state \<open>p1\<close> and model \<open>m1\<close>.
  If the message it receives next is nil after the filter (the filter maps it to nil, or
  it arrives as nil and there is no filter to change it), the iteration ends with
  \<open>continue\<close>: program state and model are the same as before, so nothing was added to
  the trace (no call of Update, no command forwarded, no render) and the mode table and
  the keyboard enhancements are unchanged; the run goes on as if the message had not come.
\<close>

theorem filtered_message_dropped:
  assumes "eventLoop pf M p model pre = (p1, Waiting m1)"
    and "applyFilter p1 m1 msg0 = None"
  shows "eventLoop pf M p model (pre @ [MsgsRecv msg0]) = (p1, Waiting m1) \<and>
         eventLoop pf M p model (pre @ MsgsRecv msg0 # es) = eventLoop pf M p model (pre @ es)"
  using assms by (simp add: eventLoop_append)

theorem filtered_message_dropped_witness:
  "eventLoop linux counter (newProgram (Some noQuit)) 0 ([] @ [MsgsRecv (Some QuitMsg)])
     = (newProgram (Some noQuit), Waiting 0) \<and>
   eventLoop linux counter (newProgram None) 0 ([] @ [MsgsRecv None])
     = (newProgram None, Waiting 0)"
proof -
  have run: "eventLoop linux counter (newProgram f) 0 [] = (newProgram f, Waiting 0)" for f
    by simp
  have drop1: "applyFilter (newProgram (Some noQuit)) (0::nat) (Some QuitMsg) = None"
    by (simp add: applyFilter_def noQuit_def)
  have drop2: "applyFilter (newProgram None) (0::nat) None = None"
    by (simp add: applyFilter_def)
  from filtered_message_dropped [OF run drop1, of "[]"]
       filtered_message_dropped [OF run drop2, of "[]"]
  show ?thesis by simp
qed

subsection \<open>Quit and Interrupt\<close>

text \<open>
  Claim C2, as amended. The loop is waiting with program state \<open>p1\<close> and model \<open>m1\<close>. If
  the message it receives next is a Quit message after the filter, the loop returns the
  current model and a nil error, whatever events follow; Run then returns a nil error
  when the context is not cancelled at that moment, and the killed error when it is. If
  the message is an Interrupt message after the filter, the loop returns the current
  model and the interrupted error, and Run returns that error.
\<close>

theorem quit_interrupt_end_loop:
  assumes "eventLoop pf M p model pre = (p1, Waiting m1)"
  shows "(applyFilter p1 m1 msg0 = Some QuitMsg \<longrightarrow>
            eventLoop pf M p model (pre @ MsgsRecv msg0 # es) = (p1, Returned m1 None) \<and>
            (\<not> ctxDone p1 \<longrightarrow>
               map_option snd (Run_eventLoop pf M p model (pre @ MsgsRecv msg0 # es))
                 = Some (m1, None)) \<and>
            (ctxDone p1 \<longrightarrow>
               map_option snd (Run_eventLoop pf M p model (pre @ MsgsRecv msg0 # es))
                 = Some (m1, Some ErrProgramKilled))) \<and>
         (applyFilter p1 m1 msg0 = Some InterruptMsg \<longrightarrow>
            eventLoop pf M p model (pre @ MsgsRecv msg0 # es)
              = (p1, Returned m1 (Some ErrInterrupted)) \<and>
            map_option snd (Run_eventLoop pf M p model (pre @ MsgsRecv msg0 # es))
              = Some (m1, Some ErrInterrupted))"
  using assms
  by (simp add: eventLoop_append Run_eventLoop_def Run_after_loop_def)

theorem quit_interrupt_end_loop_witness:
  "eventLoop linux counter (newProgram None) 0 ([] @ MsgsRecv (Some QuitMsg) # [CtxDone])
     = (newProgram None, Returned 0 None) \<and>
   map_option snd
     (Run_eventLoop linux counter (newProgram None) 0 ([] @ MsgsRecv (Some QuitMsg) # [CtxDone]))
     = Some (0, None) \<and>
   map_option snd
     (Run_eventLoop linux counter ((newProgram None)\<lparr>ctxDone := True\<rparr>) 0
        ([] @ MsgsRecv (Some QuitMsg) # []))
     = Some (0, Some ErrProgramKilled) \<and>
   eventLoop linux counter (newProgram None) 0 ([] @ MsgsRecv (Some InterruptMsg) # [])
     = (newProgram None, Returned 0 (Some ErrInterrupted)) \<and>
   map_option snd
     (Run_eventLoop linux counter (newProgram None) 0 ([] @ MsgsRecv (Some InterruptMsg) # []))
     = Some (0, Some ErrInterrupted)"
proof -
  have run: "eventLoop linux counter q (0::nat) [] = (q, Waiting 0)" for q
    by simp
  have pass: "applyFilter (newProgram None) (0::nat) msg = msg" for msg
    by (simp add: applyFilter_def)
  have pass': "applyFilter ((newProgram None)\<lparr>ctxDone := True\<rparr>) (0::nat) msg = msg" for msg
    by (simp add: applyFilter_def)
  have live: "\<not> ctxDone (newProgram None)"
    by (simp add: newProgram_def)
  from quit_interrupt_end_loop [OF run, of "newProgram None" "Some QuitMsg" "[CtxDone]"]
       quit_interrupt_end_loop [OF run, of "(newProgram None)\<lparr>ctxDone := True\<rparr>" "Some QuitMsg" "[]"]
       quit_interrupt_end_loop [OF run, of "newProgram None" "Some InterruptMsg" "[]"]
  show ?thesis
    by (simp add: pass pass' live)
qed

text \<open>
  The claim as stated fails where the filter takes the Quit message away (the loop keeps
  waiting), and where the context is cancelled when the loop returns on a Quit message
  (Run returns the killed error, not nil).
\<close>

theorem quit_not_final_counterexample:
  "eventLoop linux counter (newProgram (Some noQuit)) 0 [MsgsRecv (Some QuitMsg)]
     = (newProgram (Some noQuit), Waiting 0) \<and>
   map_option snd
     (Run_eventLoop linux counter ((newProgram None)\<lparr>ctxDone := True\<rparr>) 0 [MsgsRecv (Some QuitMsg)])
     = Some (0, Some ErrProgramKilled)"
  by (simp add: applyFilter_def noQuit_def Run_eventLoop_def Run_after_loop_def)

subsection \<open>Update, command and render\<close>

text \<open>
  Claim C3, as amended. The loop is waiting with program state \<open>p1\<close> and model \<open>m1\<close>, and
  the message it receives next is \<open>msg\<close> after the filter. On a Quit or an Interrupt
  message the loop returns at once, and on a batch message it sends the commands of the
  batch to the command channel and continues; in these three cases Update is not called
  and nothing is rendered. On every other message the switch applies the internal effect
  (giving \<open>p2\<close>), and then the loop calls Update with \<open>msg\<close>, sends the command it returns
  to the command channel and renders the new model, in this order.
\<close>

theorem update_forward_render:
  assumes "eventLoop pf M p model pre = (p1, Waiting m1)"
    and "applyFilter p1 m1 msg0 = Some msg"
  shows "(msg = QuitMsg \<longrightarrow>
            eventLoop pf M p model (pre @ [MsgsRecv msg0]) = (p1, Returned m1 None)) \<and>
         (msg = InterruptMsg \<longrightarrow>
            eventLoop pf M p model (pre @ [MsgsRecv msg0])
              = (p1, Returned m1 (Some ErrInterrupted))) \<and>
         (\<forall>cs. msg = BatchMsg cs \<longrightarrow>
            (\<exists>p3. eventLoop pf M p model (pre @ [MsgsRecv msg0]) = (p3, Waiting m1) \<and>
                  trace p3 = trace p1 @ map CmdsSend cs)) \<and>
         (msg \<noteq> QuitMsg \<and> msg \<noteq> InterruptMsg \<and> (\<forall>cs. msg \<noteq> BatchMsg cs) \<longrightarrow>
            (\<exists>p2 p3. handleMsg pf msg p1 = Proceed p2 \<and>
               eventLoop pf M p model (pre @ [MsgsRecv msg0])
                 = (p3, Waiting (fst (Update M m1 msg))) \<and>
               trace p3 = trace p2 @
                 [UpdateCall msg, CmdsSend (snd (Update M m1 msg)),
                  Renderer (render_view (View M (fst (Update M m1 msg)))
                                        (CursorOf M (fst (Update M m1 msg))))]))"
proof -
  have loop: "eventLoop pf M p model (pre @ [MsgsRecv msg0]) = eventLoop pf M p1 m1 [MsgsRecv msg0]"
    using assms(1) by (rule eventLoop_append)
  have q: "msg = QuitMsg \<longrightarrow>
      eventLoop pf M p model (pre @ [MsgsRecv msg0]) = (p1, Returned m1 None)"
    using assms(2) by (simp add: loop)
  have i: "msg = InterruptMsg \<longrightarrow>
      eventLoop pf M p model (pre @ [MsgsRecv msg0]) = (p1, Returned m1 (Some ErrInterrupted))"
    using assms(2) by (simp add: loop)
  have b: "\<forall>cs. msg = BatchMsg cs \<longrightarrow>
            (\<exists>p3. eventLoop pf M p model (pre @ [MsgsRecv msg0]) = (p3, Waiting m1) \<and>
                  trace p3 = trace p1 @ map CmdsSend cs)"
    using assms(2) by (simp add: loop trace_forward)
  have u: "msg \<noteq> QuitMsg \<and> msg \<noteq> InterruptMsg \<and> (\<forall>cs. msg \<noteq> BatchMsg cs) \<longrightarrow>
            (\<exists>p2 p3. handleMsg pf msg p1 = Proceed p2 \<and>
               eventLoop pf M p model (pre @ [MsgsRecv msg0])
                 = (p3, Waiting (fst (Update M m1 msg))) \<and>
               trace p3 = trace p2 @
                 [UpdateCall msg, CmdsSend (snd (Update M m1 msg)),
                  Renderer (render_view (View M (fst (Update M m1 msg)))
                                        (CursorOf M (fst (Update M m1 msg))))])"
  proof
    assume other: "msg \<noteq> QuitMsg \<and> msg \<noteq> InterruptMsg \<and> (\<forall>cs. msg \<noteq> BatchMsg cs)"
    then obtain p2 where p2: "handleMsg pf msg p1 = Proceed p2"
      using handleMsg_Proceed by blast
    have "eventLoop pf M p1 m1 [MsgsRecv msg0] =
            (fst (updateAndRender M msg m1 p2), Waiting (snd (updateAndRender M msg m1 p2)))"
      using assms(2) p2 by simp
    then show "\<exists>p2 p3. handleMsg pf msg p1 = Proceed p2 \<and>
               eventLoop pf M p model (pre @ [MsgsRecv msg0])
                 = (p3, Waiting (fst (Update M m1 msg))) \<and>
               trace p3 = trace p2 @
                 [UpdateCall msg, CmdsSend (snd (Update M m1 msg)),
                  Renderer (render_view (View M (fst (Update M m1 msg)))
                                        (CursorOf M (fst (Update M m1 msg))))]"
      using p2 loop trace_updateAndRender snd_updateAndRender by metis
  qed
  from q i b u show ?thesis by blast
qed

theorem update_forward_render_witness:
  "(\<exists>p3. eventLoop linux counter (newProgram None) 0 ([] @ [MsgsRecv (Some (OtherMsg 7))])
            = (p3, Waiting 1) \<and>
          trace p3 = [UpdateCall (OtherMsg 7), CmdsSend None, Renderer (render_view ''x'' None)]) \<and>
   (\<exists>p3. eventLoop linux counter (newProgram None) 0
            ([] @ [MsgsRecv (Some (BatchMsg [Some (Cmd 1), None]))]) = (p3, Waiting 0) \<and>
          trace p3 = [CmdsSend (Some (Cmd 1)), CmdsSend None]) \<and>
   eventLoop linux counter (newProgram None) 0 ([] @ [MsgsRecv (Some QuitMsg)])
     = (newProgram None, Returned 0 None) \<and>
   eventLoop linux counter (newProgram None) 0 ([] @ [MsgsRecv (Some InterruptMsg)])
     = (newProgram None, Returned 0 (Some ErrInterrupted))"
proof -
  have run: "eventLoop linux counter (newProgram None) (0::nat) [] = (newProgram None, Waiting 0)"
    by simp
  have pass: "applyFilter (newProgram None) (0::nat) (Some msg) = Some msg" for msg
    by (simp add: applyFilter_def)
  have t: "trace (newProgram None) = []"
    by (simp add: newProgram_def)
  have c: "Update counter 0 msg = (Suc 0, None)" "View counter (Suc 0) = ''x''"
    "CursorOf counter (Suc 0) = None" for msg
    by (simp_all add: counter_def)
  from update_forward_render [OF run pass, of "OtherMsg 7"]
       update_forward_render [OF run pass, of "BatchMsg [Some (Cmd 1), None]"]
       update_forward_render [OF run pass, of QuitMsg]
       update_forward_render [OF run pass, of InterruptMsg]
  show ?thesis
    by (simp add: t c pass)
qed

text \<open>
  The claim as stated fails on the three control messages it names: with no filter, a
  Quit message, an Interrupt message and a batch message leave the model as it is (the
  counter model would count the call of Update), and the trace holds no call of Update
  and no render.
\<close>

theorem control_messages_counterexample:
  "eventLoop linux counter (newProgram None) 0 [MsgsRecv (Some QuitMsg)]
     = (newProgram None, Returned 0 None) \<and>
   eventLoop linux counter (newProgram None) 0 [MsgsRecv (Some InterruptMsg)]
     = (newProgram None, Returned 0 (Some ErrInterrupted)) \<and>
   snd (eventLoop linux counter (newProgram None) 0 [MsgsRecv (Some (BatchMsg [Some (Cmd 1)]))])
     = Waiting 0 \<and>
   trace (fst (eventLoop linux counter (newProgram None) 0
             [MsgsRecv (Some (BatchMsg [Some (Cmd 1)]))]))
     = [CmdsSend (Some (Cmd 1))] \<and>
   trace (newProgram None :: nat Program) = []"
  by (simp add: applyFilter_def cmds_send_def emit_def newProgram_def)

subsection \<open>Terminal modes\<close>

lemma filter_hook_enableMode [simp]: "filter_hook (enableMode m p) = filter_hook p"
  by (cases m) (simp_all add: enableMode_def renderer_call_def execute_def emit_def Let_def)

lemma filter_hook_disableMode [simp]: "filter_hook (disableMode m p) = filter_hook p"
  by (cases m) (simp_all add: disableMode_def renderer_call_def execute_def emit_def Let_def)

lemma modes_enableMode: "modes (enableMode m p) = (modes p)(m := ModeSet)"
  by (cases m) (auto simp add: enableMode_def renderer_call_def execute_def emit_def Let_def
       IsSet_def Modes_Get_def Modes_Set_def)

lemma modes_disableMode: "modes (disableMode m p) = (modes p)(m := ModeReset)"
  by (cases m) (auto simp add: disableMode_def renderer_call_def execute_def emit_def Let_def
       IsReset_def Modes_Get_def Modes_Reset_def)

lemma enableMode_set: "IsSet (Modes_Get (modes p) m) \<Longrightarrow> enableMode m p = p"
  by (simp add: enableMode_def)

lemma disableMode_reset: "IsReset (Modes_Get (modes p) m) \<Longrightarrow> disableMode m p = p"
  by (simp add: disableMode_def)

lemma enableMode_twice: "enableMode m (enableMode m p) = enableMode m p"
  by (rule enableMode_set) (simp add: modes_enableMode IsSet_def Modes_Get_def)

lemma disableMode_twice: "disableMode m (disableMode m p) = disableMode m p"
  by (rule disableMode_reset) (simp add: modes_disableMode IsReset_def Modes_Get_def)

text \<open>
  A run of the loop over enable and disable messages for one mode: the loop is still
  waiting afterwards, and the mode is in the state the last message asks for.
\<close>

lemma mode_sequence:
  assumes "passes p msgs" and "set msgs \<subseteq> {enableModeMsg m, disableModeMsg m}"
  shows "\<exists>p' model'. eventLoop pf M p model (received msgs) = (p', Waiting model') \<and>
           modes p' m = (if msgs = [] then modes p m
                         else if last msgs = enableModeMsg m then ModeSet else ModeReset)"
  using assms
proof (induction msgs arbitrary: p model)
  case Nil
  then show ?case by (simp add: received_def)
next
  case (Cons x xs)
  have fx: "applyFilter p model (Some x) = Some x" and pxs: "passes p xs"
    using Cons.prems(1) by (simp_all add: passes_def)
  have sub: "set xs \<subseteq> {enableModeMsg m, disableModeMsg m}"
    using Cons.prems(2) by simp
  from Cons.prems(2) have "x = enableModeMsg m \<or> x = disableModeMsg m" by simp
  then show ?case
  proof
    assume x: "x = enableModeMsg m"
    let ?q = "fst (updateAndRender M x model (enableMode m p))"
    let ?m = "snd (updateAndRender M x model (enableMode m p))"
    have step: "eventLoop pf M p model (received (x # xs)) = eventLoop pf M ?q ?m (received xs)"
      using fx x by (simp add: received_def)
    have "passes ?q xs" using pxs passes_filter_hook [of ?q p xs] by simp
    from Cons.IH [OF this sub, of ?m] step show ?thesis
      by (cases "xs = []") (auto simp add: x modes_enableMode)
  next
    assume x: "x = disableModeMsg m"
    let ?q = "fst (updateAndRender M x model (disableMode m p))"
    let ?m = "snd (updateAndRender M x model (disableMode m p))"
    have step: "eventLoop pf M p model (received (x # xs)) = eventLoop pf M ?q ?m (received xs)"
      using fx x by (simp add: received_def)
    have "passes ?q xs" using pxs passes_filter_hook [of ?q p xs] by simp
    from Cons.IH [OF this sub, of ?m] step show ?thesis
      by (cases "xs = []") (auto simp add: x modes_disableMode)
  qed
qed

text \<open>
  Claim C4, as amended. For every mode: the switch case of an enable message for a mode
  that is set, and of a disable message for a mode that is reset, leaves the program as
  it is (nothing is written to the terminal, the renderer is not told to change a mode,
  the mode table is unchanged; the loop then calls Update and renders as for every
  message). Handling the same message twice gives the same program state as handling it
  once. After every non-empty sequence of enable and disable messages for the mode that
  the loop processes, the mode is set if the last message was an enable message and
  reset if it was a disable message.
\<close>

theorem mode_transitions:
  "(IsSet (Modes_Get (modes p) m) \<longrightarrow> handleMsg pf (enableModeMsg m) p = Proceed p) \<and>
   (IsReset (Modes_Get (modes p) m) \<longrightarrow> handleMsg pf (disableModeMsg m) p = Proceed p) \<and>
   enableMode m (enableMode m p) = enableMode m p \<and>
   disableMode m (disableMode m p) = disableMode m p \<and>
   (passes p msgs \<and> set msgs \<subseteq> {enableModeMsg m, disableModeMsg m} \<and> msgs \<noteq> [] \<longrightarrow>
      (\<exists>p' model'. eventLoop pf M p model (received msgs) = (p', Waiting model') \<and>
         Modes_Get (modes p') m = (if last msgs = enableModeMsg m then ModeSet else ModeReset)))"
proof -
  have seq: "passes p msgs \<and> set msgs \<subseteq> {enableModeMsg m, disableModeMsg m} \<and> msgs \<noteq> [] \<longrightarrow>
      (\<exists>p' model'. eventLoop pf M p model (received msgs) = (p', Waiting model') \<and>
         Modes_Get (modes p') m = (if last msgs = enableModeMsg m then ModeSet else ModeReset))"
    using mode_sequence [of p msgs m pf M model] by (auto simp add: Modes_Get_def)
  show ?thesis
    using seq by (simp add: enableMode_set disableMode_reset enableMode_twice disableMode_twice)
qed

text \<open>
  Alt screen on, off, on, with no filter; and an enable message for the mode that is
  then set, a disable message for a mode that is reset.
\<close>

theorem mode_transitions_witness:
  "(\<exists>p' model'.
      eventLoop linux counter (newProgram None) 0
        (received [enableModeMsg AltScreenSaveCursorMode, disableModeMsg AltScreenSaveCursorMode,
                   enableModeMsg AltScreenSaveCursorMode]) = (p', Waiting model') \<and>
      Modes_Get (modes p') AltScreenSaveCursorMode = ModeSet) \<and>
   handleMsg linux (enableModeMsg AltScreenSaveCursorMode)
       (enableMode AltScreenSaveCursorMode (newProgram None :: nat Program))
     = Proceed (enableMode AltScreenSaveCursorMode (newProgram None)) \<and>
   handleMsg linux (disableModeMsg FocusEventMode)
       (disableMode FocusEventMode (newProgram None :: nat Program))
     = Proceed (disableMode FocusEventMode (newProgram None))"
proof -
  have set: "IsSet (Modes_Get (modes (enableMode AltScreenSaveCursorMode (newProgram None :: nat Program)))
               AltScreenSaveCursorMode)"
    by (simp add: modes_enableMode IsSet_def Modes_Get_def)
  have reset: "IsReset (Modes_Get (modes (disableMode FocusEventMode (newProgram None :: nat Program)))
               FocusEventMode)"
    by (simp add: modes_disableMode IsReset_def Modes_Get_def)
  have pass: "passes (newProgram None :: nat Program) msgs" for msgs
    by (simp add: passes_None)
  from mode_transitions [of "newProgram None" AltScreenSaveCursorMode linux
         "[enableModeMsg AltScreenSaveCursorMode, disableModeMsg AltScreenSaveCursorMode,
           enableModeMsg AltScreenSaveCursorMode]" counter 0]
  have a: "\<exists>p' model'.
      eventLoop linux counter (newProgram None) 0
        (received [enableModeMsg AltScreenSaveCursorMode, disableModeMsg AltScreenSaveCursorMode,
                   enableModeMsg AltScreenSaveCursorMode]) = (p', Waiting model') \<and>
      Modes_Get (modes p') AltScreenSaveCursorMode = ModeSet"
    by (simp add: pass)
  from mode_transitions [of "enableMode AltScreenSaveCursorMode (newProgram None)"
         AltScreenSaveCursorMode linux "[]" counter 0] set
  have b: "handleMsg linux (enableModeMsg AltScreenSaveCursorMode)
       (enableMode AltScreenSaveCursorMode (newProgram None :: nat Program))
     = Proceed (enableMode AltScreenSaveCursorMode (newProgram None))"
    by blast
  from mode_transitions [of "disableMode FocusEventMode (newProgram None)"
         FocusEventMode linux "[]" counter 0] reset
  have c: "handleMsg linux (disableModeMsg FocusEventMode)
       (disableMode FocusEventMode (newProgram None :: nat Program))
     = Proceed (disableMode FocusEventMode (newProgram None))"
    by blast
  from a b c show ?thesis by blast
qed

text \<open>
  The parity of the net enables does not determine the state of the mode. From the empty
  mode table and with no filter, two enables and an enable followed by a disable both have
  an even number of net enables; after the first the mode is set, after the second it is
  reset. A single enable and a single disable both have an odd number of net enables (and
  both change the table and write to the terminal); after the first the mode is set,
  after the second it is reset. The trace of the two enables shows what the second one,
  for a mode that is set, still does: nothing is written for the mode, and the loop calls
  Update and the renderer as for every message.
\<close>

theorem mode_parity_counterexample:
  "even (net_enables [enableModeMsg BracketedPasteMode, enableModeMsg BracketedPasteMode]) \<and>
   Modes_Get (modes (fst (eventLoop linux counter (newProgram None) 0
      (received [enableModeMsg BracketedPasteMode, enableModeMsg BracketedPasteMode]))))
      BracketedPasteMode = ModeSet \<and>
   even (net_enables [enableModeMsg BracketedPasteMode, disableModeMsg BracketedPasteMode]) \<and>
   Modes_Get (modes (fst (eventLoop linux counter (newProgram None) 0
      (received [enableModeMsg BracketedPasteMode, disableModeMsg BracketedPasteMode]))))
      BracketedPasteMode = ModeReset \<and>
   odd (net_enables [enableModeMsg BracketedPasteMode]) \<and>
   Modes_Get (modes (fst (eventLoop linux counter (newProgram None) 0
      (received [enableModeMsg BracketedPasteMode])))) BracketedPasteMode = ModeSet \<and>
   odd (net_enables [disableModeMsg BracketedPasteMode]) \<and>
   Modes_Get (modes (fst (eventLoop linux counter (newProgram None) 0
      (received [disableModeMsg BracketedPasteMode])))) BracketedPasteMode = ModeReset \<and>
   trace (fst (eventLoop linux counter (newProgram None) 0
      (received [enableModeMsg BracketedPasteMode, enableModeMsg BracketedPasteMode])))
     = [Execute (SetMode BracketedPasteMode),
        UpdateCall (enableModeMsg BracketedPasteMode), CmdsSend None,
        Renderer (render_view ''x'' None),
        UpdateCall (enableModeMsg BracketedPasteMode), CmdsSend None,
        Renderer (render_view ''xx'' None)]"
  by (simp add: net_enables_def received_def applyFilter_def newProgram_def
        enableMode_def disableMode_def IsSet_def IsReset_def Modes_Get_def Modes_Set_def
        Modes_Reset_def updateAndRender_def render_def renderer_call_def cmds_send_def
        execute_def emit_def counter_def Let_def)

subsection \<open>Requesting keyboard enhancements\<close>

lemma trace_requestKeyboardEnhancements:
  "trace (requestKeyboardEnhancements p) = trace p @ negotiation (requestedEnhancements p)"
  by (simp add: requestKeyboardEnhancements_def negotiation_def execute_def emit_def Let_def)

lemma requested_requestKeyboardEnhancements [simp]:
  "requestedEnhancements (requestKeyboardEnhancements p) = requestedEnhancements p"
  by (simp add: requestKeyboardEnhancements_def execute_def emit_def Let_def)

lemma filter_hook_requestKeyboardEnhancements [simp]:
  "filter_hook (requestKeyboardEnhancements p) = filter_hook p"
  by (simp add: requestKeyboardEnhancements_def execute_def emit_def Let_def)

lemma merged_update:
  "(if modifyOtherKeys ke > modifyOtherKeys (req\<lparr>kittyFlags := kittyFlags req OR kittyFlags ke\<rparr>)
    then (req\<lparr>kittyFlags := kittyFlags req OR kittyFlags ke\<rparr>)\<lparr>modifyOtherKeys := modifyOtherKeys ke\<rparr>
    else req\<lparr>kittyFlags := kittyFlags req OR kittyFlags ke\<rparr>) = merged req ke"
  by (cases req) (simp add: merged_def max_def)

lemma enable_unfold:
  "GOOS pf \<noteq> ''windows'' \<Longrightarrow>
   enableKeyboardEnhancements pf opts p =
     go GoSendKeyboardEnhancementsMsg
       (requestKeyboardEnhancements
          (p\<lparr>requestedEnhancements := merged (requestedEnhancements p) (requestedBy opts)\<rparr>))"
  unfolding enableKeyboardEnhancements_def Let_def requestedBy_def [symmetric]
  by (simp only: merged_update if_False)

lemma requested_enable:
  "GOOS pf \<noteq> ''windows'' \<Longrightarrow>
   requestedEnhancements (enableKeyboardEnhancements pf opts p) =
     merged (requestedEnhancements p) (requestedBy opts)"
  by (simp add: enable_unfold go_def emit_def)

lemma trace_enable:
  "GOOS pf \<noteq> ''windows'' \<Longrightarrow>
   trace (enableKeyboardEnhancements pf opts p) =
     trace p @ negotiation (merged (requestedEnhancements p) (requestedBy opts)) @
     [Go GoSendKeyboardEnhancementsMsg]"
  by (simp add: enable_unfold go_def emit_def trace_requestKeyboardEnhancements)

lemma filter_hook_enable [simp]:
  "filter_hook (enableKeyboardEnhancements pf opts p) = filter_hook p"
  by (simp add: enableKeyboardEnhancements_def go_def emit_def Let_def)

lemma foldl_max_Max: "foldl max (a::int) xs = Max (insert a (set xs))"
proof (induction xs arbitrary: a)
  case Nil
  then show ?case by simp
next
  case (Cons x xs)
  have "Max (insert (max a x) (set xs)) = Max (insert a (insert x (set xs)))"
    by (cases "set xs = {}") (simp_all add: max.assoc)
  then show ?case by (simp add: Cons.IH)
qed

lemma kittyFlags_foldl_merged:
  "kittyFlags (foldl merged r ks) = foldl (OR) (kittyFlags r) (map kittyFlags ks)"
  by (induction ks arbitrary: r) (simp_all add: merged_def)

lemma modifyOtherKeys_foldl_merged:
  "modifyOtherKeys (foldl merged r ks) = foldl max (modifyOtherKeys r) (map modifyOtherKeys ks)"
  by (induction ks arbitrary: r) (simp_all add: merged_def)

text \<open>A run of the loop over enable requests merges each of them into the requested set.\<close>

lemma request_sequence:
  assumes "GOOS pf \<noteq> ''windows''" and "passes p (map enableKeyboardEnhancementsMsg reqs)"
  shows "\<exists>p' model'.
           eventLoop pf M p model (received (map enableKeyboardEnhancementsMsg reqs))
             = (p', Waiting model') \<and>
           requestedEnhancements p' = foldl merged (requestedEnhancements p) (map requestedBy reqs)"
  using assms(2)
proof (induction reqs arbitrary: p model)
  case Nil
  then show ?case by (simp add: received_def)
next
  case (Cons x xs)
  let ?msg = "enableKeyboardEnhancementsMsg x"
  let ?q = "fst (updateAndRender M ?msg model (enableKeyboardEnhancements pf x p))"
  let ?m = "snd (updateAndRender M ?msg model (enableKeyboardEnhancements pf x p))"
  have fx: "applyFilter p model (Some ?msg) = Some ?msg"
    and pxs: "passes p (map enableKeyboardEnhancementsMsg xs)"
    using Cons.prems by (simp_all add: passes_def)
  have step: "eventLoop pf M p model (received (map enableKeyboardEnhancementsMsg (x # xs)))
               = eventLoop pf M ?q ?m (received (map enableKeyboardEnhancementsMsg xs))"
    using fx by (simp add: received_def)
  have "passes ?q (map enableKeyboardEnhancementsMsg xs)"
    using pxs passes_filter_hook [of ?q p] by simp
  from Cons.IH [OF this, of ?m] step show ?case
    by (simp add: requested_enable [OF assms(1)])
qed

text \<open>
  Claim C5. On a platform where the enhancements are negotiated (every one but Windows),
  after the loop has processed a sequence of enable requests the requested bitmask is
  the bitwise OR of the bitmask requested before and the bitmasks of all the requests,
  and the requested level is the maximum of the level requested before and the levels of
  all the requests. The merge comes before the negotiation: the sequences written for a
  request are those of the merged set.
\<close>

theorem requested_enhancements_merge:
  assumes "GOOS pf \<noteq> ''windows''" and "passes p (map enableKeyboardEnhancementsMsg reqs)"
  shows "(\<exists>p' model'.
            eventLoop pf M p model (received (map enableKeyboardEnhancementsMsg reqs))
              = (p', Waiting model') \<and>
            kittyFlags (requestedEnhancements p') =
              foldl (OR) (kittyFlags (requestedEnhancements p))
                (map (\<lambda>r. kittyFlags (requestedBy r)) reqs) \<and>
            modifyOtherKeys (requestedEnhancements p') =
              Max (insert (modifyOtherKeys (requestedEnhancements p))
                          (set (map (\<lambda>r. modifyOtherKeys (requestedBy r)) reqs)))) \<and>
         trace (enableKeyboardEnhancements pf opts p) =
           trace p @ negotiation (merged (requestedEnhancements p) (requestedBy opts)) @
           [Go GoSendKeyboardEnhancementsMsg]"
proof -
  obtain p' model' where
    run: "eventLoop pf M p model (received (map enableKeyboardEnhancementsMsg reqs))
            = (p', Waiting model')"
    and req: "requestedEnhancements p'
            = foldl merged (requestedEnhancements p) (map requestedBy reqs)"
    using request_sequence [OF assms] by blast
  have "kittyFlags (requestedEnhancements p') =
          foldl (OR) (kittyFlags (requestedEnhancements p))
            (map (\<lambda>r. kittyFlags (requestedBy r)) reqs)"
    by (simp add: req kittyFlags_foldl_merged comp_def)
  moreover have "modifyOtherKeys (requestedEnhancements p') =
             Max (insert (modifyOtherKeys (requestedEnhancements p))
                         (set (map (\<lambda>r. modifyOtherKeys (requestedBy r)) reqs)))"
    by (simp add: req modifyOtherKeys_foldl_merged foldl_max_Max comp_def)
  ultimately show ?thesis
    using run trace_enable [OF assms(1)] by blast
qed

text \<open>
  The scenario of the spec on Linux, with no filter and nothing requested before: a
  request for flag 2 (key releases) and a separate request for flag 1 with level 1 (key
  disambiguation) give the requested bitmask 3 and the level 1. The second request, coming
  when bitmask 2 is requested, writes the sequences for level 1 and bitmask 3.
\<close>

theorem requested_enhancements_merge_witness:
  "(\<exists>p' model'.
      eventLoop linux counter (newProgram None) 0
        (received (map enableKeyboardEnhancementsMsg [[WithKeyReleases], [withKeyDisambiguation]]))
        = (p', Waiting model') \<and>
      kittyFlags (requestedEnhancements p') = 3 \<and>
      modifyOtherKeys (requestedEnhancements p') = 1) \<and>
   trace (enableKeyboardEnhancements linux [withKeyDisambiguation]
            ((newProgram None :: nat Program)
               \<lparr>requestedEnhancements := \<lparr>kittyFlags = 2, modifyOtherKeys = 0\<rparr>\<rparr>))
     = [Execute (KeyModifierOptions 4 1), Execute QueryModifyOtherKeys,
        Execute (PushKittyKeyboard 3), Execute RequestKittyKeyboard,
        Go GoSendKeyboardEnhancementsMsg]"
proof -
  have os: "GOOS linux \<noteq> ''windows''"
    by (simp add: linux_def)
  have pass1: "passes (newProgram None :: nat Program) msgs" for msgs
    by (simp add: passes_None)
  have pass2: "passes ((newProgram None :: nat Program)
                 \<lparr>requestedEnhancements := \<lparr>kittyFlags = 2, modifyOtherKeys = 0\<rparr>\<rparr>) msgs" for msgs
    by (simp add: passes_None)
  have r: "requestedBy [WithKeyReleases] = \<lparr>kittyFlags = 2, modifyOtherKeys = 0\<rparr>"
    "requestedBy [withKeyDisambiguation] = \<lparr>kittyFlags = 1, modifyOtherKeys = 1\<rparr>"
    by (simp_all add: requestedBy_def noEnhancements_def KittyReportEventTypes_def
          KittyDisambiguateEscapeCodes_def)
  have n: "requestedEnhancements (newProgram None :: nat Program) = noEnhancements"
    "trace (newProgram None :: nat Program) = []"
    by (simp_all add: newProgram_def)
  from requested_enhancements_merge [where pf = linux and p = "newProgram None"
         and reqs = "[[WithKeyReleases], [withKeyDisambiguation]]" and M = counter and model = 0,
         OF os pass1]
  have a: "\<exists>p' model'.
      eventLoop linux counter (newProgram None) 0
        (received (map enableKeyboardEnhancementsMsg [[WithKeyReleases], [withKeyDisambiguation]]))
        = (p', Waiting model') \<and>
      kittyFlags (requestedEnhancements p') = 3 \<and>
      modifyOtherKeys (requestedEnhancements p') = 1"
    by (simp add: r n noEnhancements_def)
  from requested_enhancements_merge [where pf = linux
         and p = "(newProgram None)\<lparr>requestedEnhancements := \<lparr>kittyFlags = 2, modifyOtherKeys = 0\<rparr>\<rparr>"
         and reqs = "[]" and M = counter and model = 0 and opts = "[withKeyDisambiguation]",
         OF os pass2]
  have b: "trace (enableKeyboardEnhancements linux [withKeyDisambiguation]
            ((newProgram None :: nat Program)
               \<lparr>requestedEnhancements := \<lparr>kittyFlags = 2, modifyOtherKeys = 0\<rparr>\<rparr>))
     = [Execute (KeyModifierOptions 4 1), Execute QueryModifyOtherKeys,
        Execute (PushKittyKeyboard 3), Execute RequestKittyKeyboard,
        Go GoSendKeyboardEnhancementsMsg]"
    by (simp add: r n merged_def negotiation_def)
  from a b show ?thesis by blast
qed

subsection \<open>Disabling keyboard enhancements\<close>

lemma disable_fields:
  assumes "GOOS pf \<noteq> ''windows''"
  shows "trace (disableKeyboardEnhancements pf p) =
           trace p @
           (if modifyOtherKeys (activeEnhancements p) > 0 then [Execute ResetModifyOtherKeys] else []) @
           (if kittyFlags (activeEnhancements p) > 0 then [Execute DisableKittyKeyboard] else [])"
    and "modifyOtherKeys (activeEnhancements (disableKeyboardEnhancements pf p)) =
           (if modifyOtherKeys (activeEnhancements p) > 0 then 0
            else modifyOtherKeys (activeEnhancements p))"
    and "modifyOtherKeys (requestedEnhancements (disableKeyboardEnhancements pf p)) =
           (if modifyOtherKeys (activeEnhancements p) > 0 then 0
            else modifyOtherKeys (requestedEnhancements p))"
    and "kittyFlags (activeEnhancements (disableKeyboardEnhancements pf p)) =
           (if kittyFlags (activeEnhancements p) > 0 then 0
            else kittyFlags (activeEnhancements p))"
    and "kittyFlags (requestedEnhancements (disableKeyboardEnhancements pf p)) =
           (if kittyFlags (activeEnhancements p) > 0 then 0
            else kittyFlags (requestedEnhancements p))"
  using assms
  by (simp_all add: disableKeyboardEnhancements_def execute_def emit_def Let_def)

lemma disable_inactive:
  "\<not> modifyOtherKeys (activeEnhancements p) > 0 \<Longrightarrow> \<not> kittyFlags (activeEnhancements p) > 0 \<Longrightarrow>
   disableKeyboardEnhancements pf p = p"
  by (simp add: disableKeyboardEnhancements_def Let_def)

lemma disable_twice:
  "disableKeyboardEnhancements pf (disableKeyboardEnhancements pf p) = disableKeyboardEnhancements pf p"
proof (cases "GOOS pf = ''windows''")
  case True
  then show ?thesis by (simp add: disableKeyboardEnhancements_def)
next
  case False
  show ?thesis
    by (rule disable_inactive) (simp_all add: disable_fields [OF False])
qed

text \<open>
  Claim C7, as amended. For every program state, on a platform other than Windows,
  processing a disable message treats each channel by itself: if the active value of the
  channel is greater than zero, the reset escape of the channel is written and the active
  and the requested value of the channel become zero; if it is not, nothing is written for
  the channel and its active and requested values stay as they are. A repeated disable is
  a no-op.
\<close>

theorem disable_keyboard_enhancements:
  assumes "GOOS pf \<noteq> ''windows''"
  shows "\<exists>p'. handleMsg pf disableKeyboardEnhancementsMsg p = Proceed p' \<and>
           trace p' =
             trace p @
             (if modifyOtherKeys (activeEnhancements p) > 0 then [Execute ResetModifyOtherKeys] else []) @
             (if kittyFlags (activeEnhancements p) > 0 then [Execute DisableKittyKeyboard] else []) \<and>
           modifyOtherKeys (activeEnhancements p') =
             (if modifyOtherKeys (activeEnhancements p) > 0 then 0
              else modifyOtherKeys (activeEnhancements p)) \<and>
           modifyOtherKeys (requestedEnhancements p') =
             (if modifyOtherKeys (activeEnhancements p) > 0 then 0
              else modifyOtherKeys (requestedEnhancements p)) \<and>
           kittyFlags (activeEnhancements p') =
             (if kittyFlags (activeEnhancements p) > 0 then 0
              else kittyFlags (activeEnhancements p)) \<and>
           kittyFlags (requestedEnhancements p') =
             (if kittyFlags (activeEnhancements p) > 0 then 0
              else kittyFlags (requestedEnhancements p)) \<and>
           handleMsg pf disableKeyboardEnhancementsMsg p' = Proceed p'"
  using disable_fields [OF assms, of p] disable_twice [of pf p] by simp

text \<open>
  On Linux, with level 1 and bitmask 3 active and requested: both reset escapes are
  written, and all four values are zero afterwards.
\<close>

theorem disable_keyboard_enhancements_witness:
  "\<exists>p'. handleMsg linux disableKeyboardEnhancementsMsg
           ((newProgram None :: nat Program)
              \<lparr>requestedEnhancements := \<lparr>kittyFlags = 3, modifyOtherKeys = 1\<rparr>,
               activeEnhancements := \<lparr>kittyFlags = 3, modifyOtherKeys = 1\<rparr>\<rparr>) = Proceed p' \<and>
         trace p' = [Execute ResetModifyOtherKeys, Execute DisableKittyKeyboard] \<and>
         modifyOtherKeys (activeEnhancements p') = 0 \<and>
         modifyOtherKeys (requestedEnhancements p') = 0 \<and>
         kittyFlags (activeEnhancements p') = 0 \<and>
         kittyFlags (requestedEnhancements p') = 0 \<and>
         handleMsg linux disableKeyboardEnhancementsMsg p' = Proceed p'"
proof -
  have os: "GOOS linux \<noteq> ''windows''"
    by (simp add: linux_def)
  have t: "trace (newProgram None :: nat Program) = []"
    by (simp add: newProgram_def)
  from disable_keyboard_enhancements [OF os,
         of "(newProgram None :: nat Program)
              \<lparr>requestedEnhancements := \<lparr>kittyFlags = 3, modifyOtherKeys = 1\<rparr>,
               activeEnhancements := \<lparr>kittyFlags = 3, modifyOtherKeys = 1\<rparr>\<rparr>"]
  show ?thesis
    by (simp add: t)
qed

text \<open>
  The claim as stated fails for the requested set when a channel is not active. On Linux,
  with no filter: the program requests key releases (the request adds key
  disambiguation), and, before any report of the terminal has made a channel active,
  disables the enhancements. The requested bitmask 3 and level 1 are still there
  afterwards, and no escape was written by the disable message: the trace ends with what
  the loop does for every message.
\<close>

theorem disable_keeps_requested_counterexample:
  "requestedEnhancements (fst (eventLoop linux counter (newProgram None) 0
      (received [RequestKeyboardEnhancements [WithKeyReleases], disableKeyboardEnhancementsMsg])))
     = \<lparr>kittyFlags = 3, modifyOtherKeys = 1\<rparr> \<and>
   activeEnhancements (fst (eventLoop linux counter (newProgram None) 0
      (received [RequestKeyboardEnhancements [WithKeyReleases]])))
     = \<lparr>kittyFlags = 0, modifyOtherKeys = 0\<rparr> \<and>
   trace (fst (eventLoop linux counter (newProgram None) 0
      (received [RequestKeyboardEnhancements [WithKeyReleases], disableKeyboardEnhancementsMsg])))
     = [Execute (KeyModifierOptions 4 1), Execute QueryModifyOtherKeys,
        Execute (PushKittyKeyboard 3), Execute RequestKittyKeyboard,
        Go GoSendKeyboardEnhancementsMsg,
        UpdateCall (RequestKeyboardEnhancements [WithKeyReleases]), CmdsSend None,
        Renderer (render_view ''x'' None),
        UpdateCall disableKeyboardEnhancementsMsg, CmdsSend None,
        Renderer (render_view ''xx'' None)]"
  by (simp add: received_def applyFilter_def RequestKeyboardEnhancements_def linux_def
        newProgram_def noEnhancements_def enableKeyboardEnhancements_def
        disableKeyboardEnhancements_def requestKeyboardEnhancements_def
        KittyReportEventTypes_def KittyDisambiguateEscapeCodes_def
        updateAndRender_def render_def renderer_call_def cmds_send_def go_def execute_def emit_def
        counter_def Let_def)

section \<open>Properties of the signal handler and of Send\<close>

subsection \<open>Signals\<close>

lemma handleSignals_append:
  "handleSignals pre = ([], False) \<Longrightarrow> handleSignals (pre @ es) = handleSignals es"
  by (induction pre rule: handleSignals.induct) (simp_all split: if_splits Signal.splits)

lemma ignoreSignals_ReleaseTerminal: "ignoreSignals (ReleaseTerminal p) = 1"
  by (simp add: ReleaseTerminal_def stopRenderer_def renderer_call_def emit_def Let_def)

text \<open>
  Claim C9. The handler goroutine has not returned after the events \<open>pre\<close>. If the next
  signal arrives while \<open>ignoreSignals\<close> reads as zero, the handler sends an Interrupt
  message for an interrupt signal and a Quit message for a terminate signal, and returns.
  If the flag reads as non-zero, as it does once \<open>ReleaseTerminal\<close> has run, no message
  is sent for the signal, and the handler goes on listening.
\<close>

theorem signals_to_messages:
  assumes "handleSignals pre = ([], False)"
  shows "handleSignals (pre @ SigRecv SIGINT 0 # es) = ([InterruptMsg], True) \<and>
         handleSignals (pre @ SigRecv SIGTERM 0 # es) = ([QuitMsg], True) \<and>
         (ignore \<noteq> 0 \<longrightarrow>
            handleSignals (pre @ [SigRecv s ignore]) = ([], False) \<and>
            handleSignals (pre @ SigRecv s ignore # es) = handleSignals (pre @ es)) \<and>
         handleSignals (pre @ [SigRecv s (ignoreSignals (ReleaseTerminal p))]) = ([], False)"
  using assms by (simp add: handleSignals_append ignoreSignals_ReleaseTerminal)

text \<open>
  An interrupt while the terminal is released is ignored; the next one, with the flag back
  at zero, becomes an Interrupt message.
\<close>

theorem signals_to_messages_witness:
  "handleSignals ([SigRecv SIGINT 1] @ SigRecv SIGINT 0 # [SigRecv SIGTERM 0])
     = ([InterruptMsg], True) \<and>
   handleSignals ([SigRecv SIGINT 1] @ SigRecv SIGTERM 0 # []) = ([QuitMsg], True) \<and>
   handleSignals ([SigRecv SIGINT 1] @ [SigRecv SIGTERM 1]) = ([], False) \<and>
   handleSignals ([SigRecv SIGINT 1] @
      [SigRecv SIGTERM (ignoreSignals (ReleaseTerminal (newProgram None :: nat Program)))])
     = ([], False)"
proof -
  have run: "handleSignals [SigRecv SIGINT 1] = ([], False)"
    by simp
  from signals_to_messages [OF run, of "[SigRecv SIGTERM 0]" 1 SIGTERM "newProgram None :: nat Program"]
       signals_to_messages [OF run, of "[]" 1 SIGTERM "newProgram None :: nat Program"]
  show ?thesis by simp
qed

subsection \<open>Send\<close>

lemma Send_select_cases:
  "Send_select msg True True = [NoOp, Delivered msg]"
  "Send_select msg True False = [NoOp]"
  "Send_select msg False True = [Delivered msg]"
  "Send_select msg False False = []"
  by (simp_all add: Send_select_def select_ready_def)

lemma Send_None: "Send msg env = None \<longleftrightarrow> (\<forall>e \<in> set env. e = (False, False))"
  by (induction msg env rule: Send.induct) (auto simp add: Send_select_def select_ready_def)

lemma Send_Some:
  "Send msg env = Some (n, rs) \<Longrightarrow>
   n < length env \<and> (\<forall>i<n. env ! i = (False, False)) \<and> env ! n \<noteq> (False, False) \<and>
   set rs = (if fst (env ! n) then {NoOp} else {}) \<union>
            (if snd (env ! n) then {Delivered msg} else {})"
proof (induction msg env arbitrary: n rule: Send.induct)
  case (1 msg)
  then show ?case by simp
next
  case (2 msg dn receiving rest)
  show ?case
  proof (cases "Send_select msg dn receiving \<noteq> []")
    case True
    with "2.prems" have "n = 0" and "rs = Send_select msg dn receiving" by simp_all
    with True show ?thesis
      by (cases dn; cases receiving) (auto simp add: Send_select_cases)
  next
    case False
    then have blocked: "\<not> dn" "\<not> receiving"
      by (cases dn; cases receiving; simp add: Send_select_cases)+
    from False "2.prems" obtain k where k: "Send msg rest = Some (k, rs)" and n: "n = Suc k"
      by (auto split: option.splits)
    from "2.IH" [OF False k] n blocked show ?thesis
      by (auto simp add: nth_Cons split: nat.splits)
  qed
qed

text \<open>
  Claim C8. A call of Send when the context is cancelled returns at the first look at the
  select, without blocking: as a no-op, or, when the loop happens to receive at that
  moment, by delivering the message. A fault is not among the results: the only
  operation of Send that can panic is a send on a closed channel, and nothing closes
  \<open>p.msgs\<close>. In general a call of Send stays blocked exactly as long as the context is
  not cancelled and the loop does not receive, and it returns at the first moment at
  which one of the two holds.
\<close>

theorem Send_after_cancel:
  "(\<exists>rs. Send msg ((True, receiving) # rest) = Some (0, rs) \<and>
          NoOp \<in> set rs \<and> set rs \<subseteq> {NoOp, Delivered msg}) \<and>
   (Send msg env = None \<longleftrightarrow> (\<forall>e \<in> set env. e = (False, False))) \<and>
   (\<forall>n rs. Send msg env = Some (n, rs) \<longrightarrow>
      n < length env \<and> (\<forall>i<n. env ! i = (False, False)) \<and> env ! n \<noteq> (False, False) \<and>
      set rs = (if fst (env ! n) then {NoOp} else {}) \<union>
               (if snd (env ! n) then {Delivered msg} else {}))"
proof -
  have "\<exists>rs. Send msg ((True, receiving) # rest) = Some (0, rs) \<and>
          NoOp \<in> set rs \<and> set rs \<subseteq> {NoOp, Delivered msg}"
    by (simp add: Send_select_def select_ready_def)
  then show ?thesis
    using Send_None [of msg env] Send_Some [of msg env] by blast
qed

text \<open>
  A message sent after the exit is dropped at once; a message sent while the program runs
  waits two moments and is delivered at the third; one that nobody takes stays blocked.
\<close>

theorem Send_after_cancel_witness:
  "Send (OtherMsg 1) ((True, False) # []) = Some (0, [NoOp]) \<and>
   Send (OtherMsg 1) [(False, False), (False, False), (False, True)]
     = Some (2, [Delivered (OtherMsg 1)]) \<and>
   Send (OtherMsg 1) [(False, False), (False, False)] = None"
proof -
  have a: "Send (OtherMsg 1) ((True, False) # []) = Some (0, [NoOp])"
    using Send_after_cancel [of "OtherMsg 1" False "[]" "[]"]
    by (simp add: Send_select_def select_ready_def)
  have b: "Send (OtherMsg 1) [(False, False), (False, False), (False, True)]
     = Some (2, [Delivered (OtherMsg 1)])"
    using Send_after_cancel [of "OtherMsg 1" False "[]" "[(False, False), (False, False), (False, True)]"]
    by (simp add: Send_select_def select_ready_def)
  have c: "Send (OtherMsg 1) [(False, False), (False, False)] = None"
    using Send_after_cancel [of "OtherMsg 1" False "[]" "[(False, False), (False, False)]"]
    by simp
  from a b c show ?thesis by blast
qed

section \<open>Properties of shutdown\<close>

subsection \<open>One execution of the function\<close>

lemma shutdownOnce_steps [simp]:
  "shutdownOnce (emit e p) = shutdownOnce p"
  "shutdownOnce (cancel p) = shutdownOnce p"
  "shutdownOnce (closeInput kill p) = shutdownOnce p"
  "shutdownOnce (stopRendererIfSet kill p) = shutdownOnce p"
  "shutdownOnce (signalFinished kill p) = shutdownOnce p"
  by (simp_all add: cancel_def closeInput_def stopRendererIfSet_def stopRenderer_def
        signalFinished_def renderer_call_def emit_def Let_def)

lemma shutdown_steps_flag:
  "f \<in> set (shutdown_steps kill) \<Longrightarrow> shutdownOnce (f p) = shutdownOnce p"
  by (auto simp add: shutdown_steps_def)

lemma length_shutdown_steps [simp]: "length (shutdown_steps kill) = 6"
  by (simp add: shutdown_steps_def)

lemma trace_shutdown_body:
  "trace (shutdown_body kill p) = trace p @ shutdown_trace kill p"
  by (simp add: shutdown_body_def shutdown_steps_def shutdown_trace_def cancel_def closeInput_def
        stopRendererIfSet_def stopRenderer_def signalFinished_def renderer_call_def emit_def Let_def)

lemma finished_shutdown_body:
  "finished (shutdown_body kill p) = finished p + (if kill then 0 else 1)"
  by (simp add: shutdown_body_def shutdown_steps_def cancel_def closeInput_def
        stopRendererIfSet_def stopRenderer_def signalFinished_def renderer_call_def emit_def Let_def)

lemma ctxDone_shutdown_body: "ctxDone (shutdown_body kill p)"
  by (simp add: shutdown_body_def shutdown_steps_def cancel_def closeInput_def
        stopRendererIfSet_def stopRenderer_def signalFinished_def renderer_call_def emit_def Let_def)

subsection \<open>The calls that the triggers lead to\<close>

lemma trigger_calls:
  "Kill p = shutdown True p"
  "recoverFromPanic True p = shutdown True p"
  "fst (Run_after_loop M p model (Some ErrInterrupted)) = shutdown True p"
  "ctxDone p \<Longrightarrow> fst (Run_after_loop M p model None) = shutdown True p"
  "\<not> ctxDone p \<Longrightarrow> fst (Run_after_loop M p model None) = shutdown False (render M model p)"
  by (simp_all add: Kill_def recoverFromPanic_def Run_after_loop_def)

text \<open>A single goroutine that calls \<open>shutdown\<close> does what the function \<open>shutdown\<close> says.\<close>

lemma shutdown_alone:
  "\<not> shutdownOnce p \<Longrightarrow>
   prog (exec [Caller 0, Executor, Executor, Executor, Executor, Executor, Executor, Executor]
           (start p [kill])) = shutdown kill p"
  by (simp add: exec_def start_def sched_step_def remove_nth_def shutdown_def shutdown_body_def
        shutdown_steps_def)

subsection \<open>The invariant of the interleaved calls\<close>

lemma length_remove_nth: "i < length xs \<Longrightarrow> length (remove_nth i xs) = length xs - 1"
  by (simp add: remove_nth_def)

lemma set_remove_nth: "set (remove_nth i xs) \<subseteq> set xs"
  by (auto simp add: remove_nth_def dest: in_set_takeD in_set_dropD)

lemma phase_start: "phase p0 kills (start p0 kills)"
  by (simp add: phase_def start_def)

lemma foldl_take_Suc:
  "i < length fs \<Longrightarrow> foldl (\<lambda>q f. f q) p (take (Suc i) fs) = (fs ! i) (foldl (\<lambda>q f. f q) p (take i fs))"
  by (simp add: take_Suc_conv_app_nth)

lemma phase_step:
  assumes "\<not> shutdownOnce p0" and "phase p0 kills c"
  shows "phase p0 kills (sched_step ch c)"
proof (cases ch)
  case (Caller i)
  show ?thesis
  proof (cases "i < length (pending c)")
    case False
    with Caller assms(2) show ?thesis by (simp add: sched_step_def)
  next
    case True
    then have in_kills: "pending c ! i \<in> set kills"
      using assms(2) by (auto simp add: phase_def)
    have sub: "set (remove_nth i (pending c)) \<subseteq> set kills"
      using assms(2) set_remove_nth [of i "pending c"] by (auto simp add: phase_def)
    have len: "length (remove_nth i (pending c)) = length (pending c) - 1" "0 < length (pending c)"
      using True by (auto simp add: length_remove_nth)
    show ?thesis
    proof (cases "shutdownOnce (prog c)")
      case flagged: True
      then have "\<exists>kill. running c = None \<and> kill \<in> set kills \<and> 0 < returned c \<and>
               prog c = (shutdown_body kill p0)\<lparr>shutdownOnce := True\<rparr>"
        using assms by (auto simp add: phase_def)
      then show ?thesis
        using Caller True flagged assms(2) sub len
        by (auto simp add: sched_step_def phase_def)
    next
      case fresh: False
      show ?thesis
      proof (cases "running c")
        case None
        then have "prog c = p0 \<and> returned c = 0"
          using fresh assms(2) by (auto simp add: phase_def)
        then show ?thesis
          using Caller True fresh None assms sub len in_kills
          by (auto simp add: sched_step_def phase_def)
      next
        case (Some r)
        then show ?thesis
          using Caller True fresh assms(2) by (simp add: sched_step_def)
      qed
    qed
  qed
next
  case Executor
  show ?thesis
  proof (cases "running c")
    case None
    with Executor assms(2) show ?thesis by (simp add: sched_step_def)
  next
    case (Some r)
    obtain kill i where r: "r = (kill, i)" by (cases r)
    from assms(2) Some r have run: "kill \<in> set kills" "i \<le> 6" "\<not> shutdownOnce (prog c)"
      "prog c = foldl (\<lambda>q f. f q) p0 (take i (shutdown_steps kill))"
      and cnt: "length (pending c) + returned c + 1 = length kills"
      and sub: "set (pending c) \<subseteq> set kills"
      by (auto simp add: phase_def)
    show ?thesis
    proof (cases "i < 6")
      case True
      let ?f = "shutdown_steps kill ! i :: 'a Program \<Rightarrow> 'a Program"
      have "?f \<in> set (shutdown_steps kill)"
        using True by simp
      then have flag: "\<not> shutdownOnce (?f (prog c))"
        using run(3) shutdown_steps_flag by blast
      have pr: "?f (prog c) = foldl (\<lambda>q f. f q) p0 (take (Suc i) (shutdown_steps kill))"
        using True run(4) by (simp add: foldl_take_Suc)
      show ?thesis
        using Executor Some r True run(1) cnt sub flag pr
        by (simp add: sched_step_def phase_def)
    next
      case False
      with run(2) have i: "i = 6" by simp
      have "prog c = shutdown_body kill p0"
        using run(4) i by (simp add: shutdown_body_def)
      then show ?thesis
        using Executor Some r i run(1) cnt sub
        by (auto simp add: sched_step_def phase_def)
    qed
  qed
qed

lemma phase_exec:
  assumes "\<not> shutdownOnce p0"
  shows "phase p0 kills c \<Longrightarrow> phase p0 kills (exec sched c)"
  unfolding exec_def
  by (induction sched arbitrary: c) (simp_all add: phase_step [OF assms])

subsection \<open>Progress\<close>

lemma work_left_step:
  assumes "phase p0 kills c"
  shows "sched_step ch c = c \<or> work_left (sched_step ch c) < work_left c"
proof (cases ch)
  case (Caller i)
  show ?thesis
  proof (cases "i < length (pending c)")
    case False
    with Caller show ?thesis by (simp add: sched_step_def)
  next
    case True
    then have len: "length (remove_nth i (pending c)) = length (pending c) - 1" "0 < length (pending c)"
      by (auto simp add: length_remove_nth)
    then show ?thesis
      using Caller True by (auto simp add: sched_step_def work_left_def)
  qed
next
  case Executor
  show ?thesis
  proof (cases "running c")
    case None
    with Executor show ?thesis by (simp add: sched_step_def)
  next
    case (Some r)
    obtain kill i where r: "r = (kill, i)" by (cases r)
    from assms Some r have "i \<le> 6" by (auto simp add: phase_def)
    then show ?thesis
      using Executor Some r by (auto simp add: sched_step_def work_left_def)
  qed
qed

lemma can_move:
  assumes "phase p0 kills c" and "\<not> final c"
  shows "\<exists>ch. work_left (sched_step ch c) < work_left c"
proof (cases "running c")
  case (Some r)
  obtain kill i where r: "r = (kill, i)" by (cases r)
  from assms(1) Some r have "i \<le> 6" by (auto simp add: phase_def)
  then have "work_left (sched_step Executor c) < work_left c"
    using Some r by (auto simp add: sched_step_def work_left_def)
  then show ?thesis ..
next
  case None
  with assms(2) obtain n where n: "length (pending c) = Suc n"
    by (cases "pending c") (simp_all add: final_def)
  then have "length (remove_nth 0 (pending c)) = n"
    by (simp add: length_remove_nth)
  then have "work_left (sched_step (Caller 0) c) < work_left c"
    using None n by (simp add: sched_step_def work_left_def)
  then show ?thesis ..
qed

lemma exec_append: "exec (xs @ ys) c = exec ys (exec xs c)"
  by (simp add: exec_def)

lemma can_finish:
  assumes "\<not> shutdownOnce p0"
  shows "phase p0 kills c \<Longrightarrow> \<exists>sched. final (exec sched c)"
proof (induction "work_left c" arbitrary: c rule: less_induct)
  case less
  show ?case
  proof (cases "final c")
    case True
    then have "final (exec [] c)" by (simp add: exec_def)
    then show ?thesis ..
  next
    case False
    then obtain ch where ch: "work_left (sched_step ch c) < work_left c"
      using can_move [OF less.prems] by blast
    have "phase p0 kills (sched_step ch c)"
      using assms less.prems by (rule phase_step)
    from less.hyps [OF ch this] obtain sched where "final (exec sched (sched_step ch c))" ..
    then have "final (exec (ch # sched) c)" by (simp add: exec_def)
    then show ?thesis ..
  qed
qed

lemma phase_final:
  assumes "phase p0 kills c" and "final c" and "kills \<noteq> []"
  shows "\<exists>kill. kill \<in> set kills \<and> prog c = (shutdown_body kill p0)\<lparr>shutdownOnce := True\<rparr> \<and>
           returned c = length kills"
  using assms by (auto simp add: phase_def final_def)

lemma partial_trace:
  assumes "i \<le> 6"
  shows "\<exists>n. trace (foldl (\<lambda>q f. f q) p (take i (shutdown_steps kill))) =
              trace p @ take n (shutdown_trace kill p)"
proof -
  let ?q = "foldl (\<lambda>q f. f q) p (take i (shutdown_steps kill))"
  from assms have "i = 0 \<or> i = 1 \<or> i = 2 \<or> i = 3 \<or> i = 4 \<or> i = 5 \<or> i = 6"
    by arith
  then have "trace ?q = trace p @ take (length (trace ?q) - length (trace p)) (shutdown_trace kill p)"
    by (elim disjE)
       (simp_all add: shutdown_steps_def shutdown_trace_def cancel_def closeInput_def
          stopRendererIfSet_def stopRenderer_def signalFinished_def renderer_call_def emit_def
          Let_def)
  then show ?thesis ..
qed

lemma phase_trace:
  assumes "phase p0 kills c" and "kills \<noteq> []"
  shows "\<exists>kill n. kill \<in> set kills \<and> trace (prog c) = trace p0 @ take n (shutdown_trace kill p0)"
proof -
  from assms(2) obtain k where k: "k \<in> set kills" by (cases kills) auto
  from assms(1) consider
      "prog c = p0"
    | kill i where "kill \<in> set kills" "i \<le> 6"
        "prog c = foldl (\<lambda>q f. f q) p0 (take i (shutdown_steps kill))"
    | kill where "kill \<in> set kills" "prog c = (shutdown_body kill p0)\<lparr>shutdownOnce := True\<rparr>"
    by (auto simp add: phase_def)
  then show ?thesis
  proof cases
    case 1
    then have "trace (prog c) = trace p0 @ take 0 (shutdown_trace k p0)" by simp
    with k show ?thesis by blast
  next
    case 2
    with partial_trace [of i p0 kill] show ?thesis by auto
  next
    case 3
    then have "trace (prog c) = trace p0 @ take (length (shutdown_trace kill p0)) (shutdown_trace kill p0)"
      by (simp add: trace_shutdown_body)
    with 3(1) show ?thesis by blast
  qed
qed

text \<open>
  Claim C1. The program has not been shut down, and one or more goroutines call
  \<open>shutdown\<close>, each with its own \<open>kill\<close> (the calls that Quit, Kill, a panic, Interrupt
  and a cancelled context lead to), interleaved in any way the scheduler chooses. Then:
  once all calls have returned, the trace of the program is the trace before followed by
  the statements of the function exactly once (cancel the context, wait for the handlers,
  close the input, stop the renderer, restore the terminal), for the \<open>kill\<close> of one of
  the calls, and \<open>finished\<close> has been signalled once if that call was not a hard kill and
  not at all if it was; at every moment before, the trace is the trace before followed
  by a part of one such execution; from every moment on the calls can all return; and
  every move of a goroutine that is not blocked brings that end nearer.
\<close>

theorem shutdown_exactly_once:
  assumes "\<not> shutdownOnce p0" and "kills \<noteq> []"
  shows "(final (exec sched (start p0 kills)) \<longrightarrow>
            (\<exists>kill. kill \<in> set kills \<and>
               trace (prog (exec sched (start p0 kills))) = trace p0 @ shutdown_trace kill p0 \<and>
               finished (prog (exec sched (start p0 kills)))
                 = finished p0 + (if kill then 0 else 1) \<and>
               shutdownOnce (prog (exec sched (start p0 kills))) \<and>
               returned (exec sched (start p0 kills)) = length kills)) \<and>
         (\<exists>kill n. kill \<in> set kills \<and>
            trace (prog (exec sched (start p0 kills))) = trace p0 @ take n (shutdown_trace kill p0)) \<and>
         (\<exists>more. final (exec (sched @ more) (start p0 kills))) \<and>
         (\<forall>ch. sched_step ch (exec sched (start p0 kills)) = exec sched (start p0 kills) \<or>
               work_left (sched_step ch (exec sched (start p0 kills)))
                 < work_left (exec sched (start p0 kills)))"
proof -
  let ?c = "exec sched (start p0 kills)"
  have ph: "phase p0 kills ?c"
    using assms(1) phase_start by (rule phase_exec)
  have fin: "final ?c \<longrightarrow>
            (\<exists>kill. kill \<in> set kills \<and>
               trace (prog ?c) = trace p0 @ shutdown_trace kill p0 \<and>
               finished (prog ?c) = finished p0 + (if kill then 0 else 1) \<and>
               shutdownOnce (prog ?c) \<and> returned ?c = length kills)"
  proof
    assume "final ?c"
    from phase_final [OF ph this assms(2)] obtain kill where
      k: "kill \<in> set kills" "prog ?c = (shutdown_body kill p0)\<lparr>shutdownOnce := True\<rparr>"
         "returned ?c = length kills"
      by blast
    have "trace (prog ?c) = trace p0 @ shutdown_trace kill p0"
      by (simp add: k(2) trace_shutdown_body)
    moreover have "finished (prog ?c) = finished p0 + (if kill then 0 else 1)"
      by (simp add: k(2) finished_shutdown_body)
    moreover have "shutdownOnce (prog ?c)"
      by (simp add: k(2))
    ultimately show "\<exists>kill. kill \<in> set kills \<and>
               trace (prog ?c) = trace p0 @ shutdown_trace kill p0 \<and>
               finished (prog ?c) = finished p0 + (if kill then 0 else 1) \<and>
               shutdownOnce (prog ?c) \<and> returned ?c = length kills"
      using k(1,3) by blast
  qed
  have part: "\<exists>kill n. kill \<in> set kills \<and>
            trace (prog ?c) = trace p0 @ take n (shutdown_trace kill p0)"
    using ph assms(2) by (rule phase_trace)
  have more: "\<exists>more. final (exec (sched @ more) (start p0 kills))"
    using can_finish [OF assms(1) ph] by (simp add: exec_append)
  have move: "\<forall>ch. sched_step ch ?c = ?c \<or> work_left (sched_step ch ?c) < work_left ?c"
    using work_left_step [OF ph] by blast
  from fin part more move show ?thesis by blast
qed

text \<open>
  A Quit and a Kill at the same time, on the new program. The call of Kill passes \<open>Do\<close>
  first; the call that Run makes for the Quit message arrives while the function runs,
  waits, and returns when it is done. The function has run once, as a hard kill, and
  \<open>finished\<close> has not been signalled.
\<close>

theorem shutdown_exactly_once_witness:
  "final (exec [Caller (Suc 0), Executor, Caller 0, Executor, Executor, Executor, Executor, Executor,
                Executor, Caller 0] (start (newProgram None :: nat Program) [False, True])) \<and>
   trace (prog (exec [Caller (Suc 0), Executor, Caller 0, Executor, Executor, Executor, Executor, Executor,
                      Executor, Caller 0] (start (newProgram None :: nat Program) [False, True])))
     = [CtxCancel, HandlersShutdown, InputReaderCancel, InputReaderClose, RendererDoneSend,
        Renderer close, RestoreTerminalState] \<and>
   finished (prog (exec [Caller (Suc 0), Executor, Caller 0, Executor, Executor, Executor, Executor,
                         Executor, Executor, Caller 0]
                     (start (newProgram None :: nat Program) [False, True]))) = 0 \<and>
   returned (exec [Caller (Suc 0), Executor, Caller 0, Executor, Executor, Executor, Executor, Executor,
                   Executor, Caller 0] (start (newProgram None :: nat Program) [False, True])) = 2"
proof -
  let ?sched = "[Caller (Suc 0), Executor, Caller 0, Executor, Executor, Executor, Executor, Executor,
                 Executor, Caller 0]"
  let ?c = "exec ?sched (start (newProgram None :: nat Program) [False, True])"
  have fresh: "\<not> shutdownOnce (newProgram None :: nat Program)"
    by (simp add: newProgram_def)
  have c: "?c = \<lparr>prog = (shutdown_body True (newProgram None))\<lparr>shutdownOnce := True\<rparr>,
                 pending = [], running = None, returned = 2\<rparr>"
    by (simp add: exec_def start_def sched_step_def remove_nth_def fresh shutdown_body_def
          shutdown_steps_def)
  have f: "final ?c"
    by (simp add: c final_def)
  have t: "trace (prog ?c) =
     [CtxCancel, HandlersShutdown, InputReaderCancel, InputReaderClose, RendererDoneSend,
      Renderer close, RestoreTerminalState]"
  proof -
    have "trace (prog ?c) = trace (shutdown_body True (newProgram None :: nat Program))"
      by (simp add: c)
    then show ?thesis
      by (simp add: trace_shutdown_body shutdown_trace_def newProgram_def)
  qed
  from shutdown_exactly_once [OF fresh, of "[False, True]" ?sched] f
  obtain kill where k:
    "trace (prog ?c) = trace (newProgram None :: nat Program) @ shutdown_trace kill (newProgram None :: nat Program)"
    "finished (prog ?c) = finished (newProgram None :: nat Program) + (if kill then 0 else 1)"
    "returned ?c = length [False, True]"
    by auto
  have "kill"
    using k(1) t by (cases kill) (simp_all add: shutdown_trace_def newProgram_def)
  then have "finished (prog ?c) = 0"
    using k(2) by (simp add: newProgram_def)
  with f t k(3) show ?thesis
    by simp
qed

section \<open>The negotiation timeout\<close>

lemma report_sets_active:
  "\<exists>p'. handleMsg pf (KeyboardEnhancementsMsg k) p = Proceed p' \<and> activeEnhancements p' = k"
  by (cases k) (simp add: go_def emit_def)

lemma timeout_sends_empty_report:
  "sendKeyboardEnhancementsMsg pf AfterTimeout = Some (KeyboardEnhancementsMsg noEnhancements)"
  by (simp add: sendKeyboardEnhancementsMsg_def)

lemma stale_signal_ends_negotiation:
  "GOOS pf \<noteq> ''windows'' \<Longrightarrow> 0 < inKeyboardcSend s \<Longrightarrow>
   started pf s GoSendKeyboardEnhancementsMsg = s\<lparr>inKeyboardcSend := inKeyboardcSend s - 1\<rparr>"
  by (simp add: handed_def sendKeyboardEnhancementsMsg_def)

text \<open>
  Claim C6 fails on the code. On Linux, with no filter, the terminal never answers. The
  program requests keyboard enhancements: one goroutine waits in the select; its timer
  fires, the empty report reaches the loop, the active enhancements are zero, and the
  goroutine that the loop starts to signal \<open>keyboardc\<close> finds no receiver and stays
  blocked in its send. The program requests keyboard enhancements again: the select of
  the new goroutine takes the case of \<open>keyboardc\<close> at once, from that blocked sender, so no
  goroutine waits for the timeout and nothing has been passed to \<open>Send\<close>. Whatever timers
  fire afterwards, Update has received one empty report, not two.
\<close>

theorem second_negotiation_no_report:
  "inSelect (sys_run linux counter (boot (newProgram None) 0)
      [Arrives (RequestKeyboardEnhancements [])]) = 1 \<and>
   activeEnhancements (loopProgram (sys_run linux counter (boot (newProgram None) 0)
      [Arrives (RequestKeyboardEnhancements []), Timeout, Delivers])) = noEnhancements \<and>
   count_list (trace (loopProgram (sys_run linux counter (boot (newProgram None) 0)
      [Arrives (RequestKeyboardEnhancements []), Timeout, Delivers])))
      (UpdateCall (KeyboardEnhancementsMsg noEnhancements)) = 1 \<and>
   inKeyboardcSend (sys_run linux counter (boot (newProgram None) 0)
      [Arrives (RequestKeyboardEnhancements []), Timeout, Delivers]) = 1 \<and>
   inSelect (sys_run linux counter (boot (newProgram None) 0)
      [Arrives (RequestKeyboardEnhancements []), Timeout, Delivers,
       Arrives (RequestKeyboardEnhancements [])]) = 0 \<and>
   inSend (sys_run linux counter (boot (newProgram None) 0)
      [Arrives (RequestKeyboardEnhancements []), Timeout, Delivers,
       Arrives (RequestKeyboardEnhancements [])]) = [] \<and>
   count_list (trace (loopProgram (sys_run linux counter (boot (newProgram None) 0)
      [Arrives (RequestKeyboardEnhancements []), Timeout, Delivers,
       Arrives (RequestKeyboardEnhancements []), Timeout, Delivers])))
      (UpdateCall (KeyboardEnhancementsMsg noEnhancements)) = 1"
  by code_simp

end
